theory Spec2Isabelle
  imports Main "HOL-Library.Sublist"
begin

section \<open>Scripts/validate\_versioning.py\<close>

text \<open>
  A shallow embedding of the versioning gate. A Python \<open>str\<close> is a list of code points
  (\<open>pystr\<close>), and \<open>str ''...''\<close> is a literal of the script. Everything the script asks of
  its surroundings is a field of the record \<open>world\<close> further down: the environment
  variables, the files, the JSON decoder, the three git commands, and two facts about the
  interpreter, its limit on integer conversions and the decimal digits of its Unicode
  database. A git command ends in one of three ways: it prints its output, it exits with
  a non-zero status (\<open>CalledProcessError\<close>), or \<open>subprocess.check_output\<close> raises
  another exception (\<open>FileNotFoundError\<close>, an \<open>OSError\<close>, when git cannot be started).
\<close>

subsection \<open>Text\<close>

type_synonym pystr = "nat list"

definition ord :: "char \<Rightarrow> nat" where
  "ord c = of_char c"

definition str :: "string \<Rightarrow> pystr" where
  "str s = map ord s"

definition newline :: nat where
  "newline = ord (CHR 0x0A)"

text \<open>\<open>str.isspace\<close> on one character: the code points 9..13, 28..32, U+0085, U+00A0,
  U+1680, U+2000..U+200A, U+2028, U+2029, U+202F, U+205F and U+3000.\<close>

definition py_space :: "nat \<Rightarrow> bool" where
  "py_space c =
     (c \<in> {9, 10, 11, 12, 13, 28, 29, 30, 31, 32, 133, 160, 5760, 8232, 8233, 8239, 8287, 12288}
      \<or> (8192 \<le> c \<and> c \<le> 8202))"

text \<open>\<open>Py_UNICODE_TODECIMAL\<close>: the value of a character that is a decimal digit (general
  category Nd). Below 128 these are \<open>0\<close>..\<open>9\<close>; from 128 on the answer is that of the
  interpreter's Unicode database, the parameter \<open>wide\<close>.\<close>

definition todecimal :: "(nat \<Rightarrow> nat option) \<Rightarrow> nat \<Rightarrow> nat option" where
  "todecimal wide c =
     (if c < 128 then (if 48 \<le> c \<and> c \<le> 57 then Some (c - 48) else None) else wide c)"

definition is_decimal :: "(nat \<Rightarrow> nat option) \<Rightarrow> nat \<Rightarrow> bool" where
  "is_decimal wide c = (todecimal wide c \<noteq> None)"

subsection \<open>Values, failures and results\<close>

text \<open>What \<open>json.load\<close> returns: \<open>None\<close>, \<open>bool\<close>, \<open>int\<close>, \<open>float\<close>, \<open>str\<close>,
  \<open>list\<close> and \<open>dict\<close>. The script asks of a float only its type and whether it is
  zero, so \<open>JFloat\<close> carries just the truth value of the float. A dict is an
  association list read with \<open>map_of\<close>.\<close>

datatype json =
    JNull
  | JBool bool
  | JInt int
  | JFloat bool
  | JStr pystr
  | JList "json list"
  | JObj "(pystr \<times> json) list"

text \<open>Exceptions that nothing in the script catches: the interpreter prints a traceback
  and exits with status 1.\<close>

datatype exn = TypeError | ValueError | AttributeError | KeyError | OSError

text \<open>The calls of \<open>fail\<close>, one constructor per message, carrying the values the
  message prints.\<close>

datatype failure =
    MissingFile pystr
      \<comment> \<open>\<open>Missing {path}\<close>\<close>
  | InvalidJSON pystr
      \<comment> \<open>\<open>Invalid JSON in {path}: {exc}\<close>\<close>
  | MissingField pystr pystr
      \<comment> \<open>\<open>{source} missing marketing_version\<close>, \<open>{source} missing build_number\<close>\<close>
  | NotAString pystr
      \<comment> \<open>\<open>{source} marketing_version must be a string\<close>\<close>
  | NotSemVer pystr
      \<comment> \<open>\<open>{source} marketing_version must be SemVer (x.y.z)\<close>\<close>
  | NotAnInteger pystr
      \<comment> \<open>\<open>{source} build_number must be an integer\<close>\<close>
  | NegativeBuild pystr
      \<comment> \<open>\<open>{source} build_number must be >= 0\<close>\<close>
  | ReleaseWithoutBump pystr
      \<comment> \<open>\<open>{VERSION_PATH} must be updated when release label is applied\<close>\<close>
  | InvalidBaseJSON pystr pystr
      \<comment> \<open>\<open>Invalid JSON in {VERSION_PATH} at {base_ref}: {exc}\<close>\<close>
  | BuildMustIncrease json json
      \<comment> \<open>\<open>build_number must increase (current {..}, base {..})\<close>\<close>
  | VersionMustNotDecrease json json
      \<comment> \<open>\<open>marketing_version must not decrease (current {..}, base {..})\<close>\<close>
  | VersionMustIncrease json json
      \<comment> \<open>\<open>marketing_version must increase for release label (current {..}, base {..})\<close>\<close>

text \<open>How a computation stops early: \<open>fail\<close> (\<open>ERROR: ...\<close> and \<open>sys.exit(1)\<close>) or an
  uncaught exception. Both end the process with status 1.\<close>

datatype stop = Exit failure | Raise exn

text \<open>The three lines the script prints when it returns normally (status 0).\<close>

datatype notice =
    CurrentOnly
      \<comment> \<open>\<open>No base ref detected; validated current version only.\<close>\<close>
  | InitialVersion pystr pystr
      \<comment> \<open>\<open>{VERSION_PATH} not found on {base_ref}; treating as initial version.\<close>\<close>
  | Passed
      \<comment> \<open>\<open>Versioning validation passed.\<close>\<close>

text \<open>How \<open>subprocess.check_output\<close> ends: with the output of the command, with
  \<open>CalledProcessError\<close> (a non-zero exit status), or with an exception of another class.\<close>

datatype completed = Stdout pystr | CalledProcessError | Uncaught exn

definition VERSION_PATH :: pystr where
  "VERSION_PATH = str ''Docs/version.json''"

definition RELEASE_LABELS :: "json list" where
  "RELEASE_LABELS = [JStr (str ''release'')]"

subsection \<open>The regular expression\<close>

text \<open>The fragment of \<open>re\<close> that \<open>SEMVER_RE\<close> uses. The pattern is a \<open>str\<close> pattern
  compiled without \<open>re.ASCII\<close>, so \<open>\d\<close> is any decimal digit of Unicode. A cursor is the
  number of characters read and the text still to read; \<open>run\<close> lists the cursors a
  pattern can end at, in the order the backtracking matcher tries them.\<close>

datatype atom = Chr nat | Range nat nat | Digit

datatype regex =
    Bol
  | Eol
  | One atom
  | Many atom
  | Alt regex regex
  | Seq regex regex

fun atom_ok :: "(nat \<Rightarrow> nat option) \<Rightarrow> atom \<Rightarrow> nat \<Rightarrow> bool" where
  "atom_ok wide (Chr c) x = (x = c)"
| "atom_ok wide (Range lo hi) x = (lo \<le> x \<and> x \<le> hi)"
| "atom_ok wide Digit x = is_decimal wide x"

type_synonym cursor = "nat \<times> pystr"

fun many :: "(nat \<Rightarrow> nat option) \<Rightarrow> atom \<Rightarrow> cursor \<Rightarrow> cursor list" where
  "many wide a (i, []) = [(i, [])]"
| "many wide a (i, x # xs) =
     (if atom_ok wide a x then many wide a (Suc i, xs) @ [(i, x # xs)] else [(i, x # xs)])"

text \<open>Without \<open>re.MULTILINE\<close>, \<open>^\<close> holds at position 0 only, and \<open>$\<close> holds at the end of
  the text and also just before a newline that is the last character.\<close>

fun run :: "(nat \<Rightarrow> nat option) \<Rightarrow> regex \<Rightarrow> cursor \<Rightarrow> cursor list" where
  "run wide Bol (i, s) = (if i = 0 then [(i, s)] else [])"
| "run wide Eol (i, s) = (if s = [] \<or> s = [newline] then [(i, s)] else [])"
| "run wide (One a) (i, s) =
     (case s of [] \<Rightarrow> [] | x # xs \<Rightarrow> if atom_ok wide a x then [(Suc i, xs)] else [])"
| "run wide (Many a) c = many wide a c"
| "run wide (Alt r1 r2) c = run wide r1 c @ run wide r2 c"
| "run wide (Seq r1 r2) c = concat (map (run wide r2) (run wide r1 c))"

text \<open>\<open>pattern.match(s)\<close> as a truth value: there is a match that starts at position 0.\<close>

definition re_match :: "(nat \<Rightarrow> nat option) \<Rightarrow> regex \<Rightarrow> pystr \<Rightarrow> bool" where
  "re_match wide r s = (run wide r (0, s) \<noteq> [])"

text \<open>\<open>(0|[1-9]\d*)\<close>\<close>

definition NUMERIC :: regex where
  "NUMERIC =
     Alt (One (Chr (ord (CHR ''0''))))
         (Seq (One (Range (ord (CHR ''1'')) (ord (CHR ''9'')))) (Many Digit))"

text \<open>\<open>^(0|[1-9]\d*)\.(0|[1-9]\d*)\.(0|[1-9]\d*)$\<close>\<close>

definition SEMVER_RE :: regex where
  "SEMVER_RE =
     Seq Bol (Seq NUMERIC (Seq (One (Chr (ord (CHR ''.'')))) (Seq NUMERIC
       (Seq (One (Chr (ord (CHR ''.'')))) (Seq NUMERIC Eol)))))"

subsection \<open>validate\_payload\<close>

text \<open>\<open>key in data\<close>: a key of a dict, an element of a list, a substring of a string;
  any other value raises \<open>TypeError\<close>.\<close>

fun py_in :: "pystr \<Rightarrow> json \<Rightarrow> exn + bool" where
  "py_in k (JObj kvs) = Inr (k \<in> set (map fst kvs))"
| "py_in k (JList xs) = Inr (JStr k \<in> set xs)"
| "py_in k (JStr s) = Inr (sublist k s)"
| "py_in k v = Inl TypeError"

text \<open>\<open>data[key]\<close> with a string key: only a dict can be indexed that way.\<close>

fun getitem :: "json \<Rightarrow> pystr \<Rightarrow> exn + json" where
  "getitem (JObj kvs) k = (case map_of kvs k of None \<Rightarrow> Inl KeyError | Some v \<Rightarrow> Inr v)"
| "getitem v k = Inl TypeError"

text \<open>\<open>isinstance(x, int)\<close> and the integer \<open>x\<close> then is: \<open>bool\<close> is a subclass of
  \<open>int\<close>, with \<open>True == 1\<close> and \<open>False == 0\<close>.\<close>

fun int_value :: "json \<Rightarrow> int option" where
  "int_value (JInt n) = Some n"
| "int_value (JBool b) = Some (if b then 1 else 0)"
| "int_value v = None"

text \<open>The first argument is the interpreter's Unicode database, which \<open>SEMVER_RE\<close>
  consults for \<open>\d\<close>.\<close>

definition validate_payload :: "(nat \<Rightarrow> nat option) \<Rightarrow> json \<Rightarrow> pystr \<Rightarrow> stop + unit" where
  "validate_payload wide data source =
     (case py_in (str ''marketing_version'') data of
        Inl e \<Rightarrow> Inl (Raise e)
      | Inr has_version \<Rightarrow>
     if \<not> has_version then Inl (Exit (MissingField source (str ''marketing_version'')))
     else case py_in (str ''build_number'') data of
        Inl e \<Rightarrow> Inl (Raise e)
      | Inr has_build \<Rightarrow>
     if \<not> has_build then Inl (Exit (MissingField source (str ''build_number'')))
     else case getitem data (str ''marketing_version'') of
        Inl e \<Rightarrow> Inl (Raise e)
      | Inr marketing_version \<Rightarrow>
     case getitem data (str ''build_number'') of
        Inl e \<Rightarrow> Inl (Raise e)
      | Inr build_number \<Rightarrow>
     case marketing_version of
        JStr v \<Rightarrow>
          if \<not> re_match wide SEMVER_RE v then Inl (Exit (NotSemVer source))
          else (case int_value build_number of
                  None \<Rightarrow> Inl (Exit (NotAnInteger source))
                | Some n \<Rightarrow> if n < 0 then Inl (Exit (NegativeBuild source)) else Inr ())
      | _ \<Rightarrow> Inl (Exit (NotAString source)))"

subsection \<open>Strings and integers\<close>

definition strip_with :: "(nat \<Rightarrow> bool) \<Rightarrow> pystr \<Rightarrow> pystr" where
  "strip_with p s = rev (dropWhile p (rev (dropWhile p s)))"

text \<open>\<open>s.strip()\<close> removes the characters for which \<open>str.isspace\<close> holds.\<close>

definition strip :: "pystr \<Rightarrow> pystr" where
  "strip s = strip_with py_space s"

text \<open>\<open>s.split(sep)\<close> for a one-character separator. The result always has a part
  (\<open>split_on_nonempty\<close> below), so the first branch of the inner \<open>case\<close> is never
  taken.\<close>

fun split_on :: "nat \<Rightarrow> pystr \<Rightarrow> pystr list" where
  "split_on sep [] = [[]]"
| "split_on sep (x # xs) =
     (if x = sep then [] # split_on sep xs
      else (case split_on sep xs of [] \<Rightarrow> [[x]] | p # ps \<Rightarrow> (x # p) # ps))"

text \<open>\<open>int(s)\<close> for a string. First every character from 127 on is replaced: a
  whitespace character by a space, a decimal digit by the ASCII digit of its value,
  anything else by \<open>?\<close>. Then the ASCII whitespace 9..13 and 32 goes from both ends (the
  characters 28..31 are not whitespace here), an optional sign follows, then decimal
  digits that single underscores may separate. Anything else raises \<open>ValueError\<close>, and
  so does a text of more digits than the interpreter's limit
  \<open>sys.get_int_max_str_digits()\<close> (4300 unless configured; 0 switches the limit off, and
  it is never applied to 640 digits or fewer).\<close>

definition to_ascii :: "(nat \<Rightarrow> nat option) \<Rightarrow> nat \<Rightarrow> nat" where
  "to_ascii wide c =
     (if c < 127 then c
      else if py_space c then ord (CHR '' '')
      else (case todecimal wide c of Some v \<Rightarrow> ord (CHR ''0'') + v | None \<Rightarrow> ord (CHR ''?'')))"

definition ascii_space :: "nat \<Rightarrow> bool" where
  "ascii_space c = (c \<in> {9, 10, 11, 12, 13, 32})"

definition ascii_digit :: "nat \<Rightarrow> bool" where
  "ascii_digit c = (48 \<le> c \<and> c \<le> 57)"

fun grouped :: "pystr \<Rightarrow> bool" where
  "grouped [] = False"
| "grouped [d] = ascii_digit d"
| "grouped (d # u # rest) =
     (ascii_digit d \<and> (if u = ord (CHR ''_'') then grouped rest else grouped (u # rest)))"

definition decimal :: "pystr \<Rightarrow> nat" where
  "decimal ds = foldl (\<lambda>a c. 10 * a + (c - 48)) 0 ds"

definition over_limit :: "nat \<Rightarrow> nat \<Rightarrow> bool" where
  "over_limit lim n = (640 < n \<and> 0 < lim \<and> lim < n)"

definition py_int :: "(nat \<Rightarrow> nat option) \<Rightarrow> nat \<Rightarrow> pystr \<Rightarrow> exn + int" where
  "py_int wide lim s =
     (let t = strip_with ascii_space (map (to_ascii wide) s);
          negative = (case t of [] \<Rightarrow> False | c # r \<Rightarrow> c = ord (CHR ''-''));
          body = (case t of [] \<Rightarrow> []
                  | c # r \<Rightarrow> if c = ord (CHR ''-'') \<or> c = ord (CHR ''+'') then r else t);
          digits = filter (\<lambda>c. c \<noteq> ord (CHR ''_'')) body
      in if \<not> grouped body then Inl ValueError
         else if over_limit lim (length digits) then Inl ValueError
         else Inr (if negative then - int (decimal digits) else int (decimal digits)))"

subsection \<open>semver\_tuple\<close>

text \<open>The unpacking \<open>major, minor, patch = ...\<close> raises \<open>ValueError\<close> unless the split
  has exactly three parts. The first two arguments are what \<open>int\<close> takes from the
  interpreter.\<close>

definition semver_tuple :: "(nat \<Rightarrow> nat option) \<Rightarrow> nat \<Rightarrow> pystr \<Rightarrow> exn + (int \<times> int \<times> int)" where
  "semver_tuple wide lim version =
     (case split_on (ord (CHR ''.'')) version of
        [major, minor, patch] \<Rightarrow>
          (case py_int wide lim major of
             Inl e \<Rightarrow> Inl e
           | Inr a \<Rightarrow>
          (case py_int wide lim minor of
             Inl e \<Rightarrow> Inl e
           | Inr b \<Rightarrow>
          (case py_int wide lim patch of
             Inl e \<Rightarrow> Inl e
           | Inr c \<Rightarrow> Inr (a, b, c))))
      | _ \<Rightarrow> Inl ValueError)"

text \<open>Python compares tuples of equal length at the first position where they differ.\<close>

fun tuple_less :: "int \<times> int \<times> int \<Rightarrow> int \<times> int \<times> int \<Rightarrow> bool" where
  "tuple_less (a, b, c) (x, y, z) = (a < x \<or> (a = x \<and> (b < y \<or> (b = y \<and> c < z))))"

definition tuple_le :: "int \<times> int \<times> int \<Rightarrow> int \<times> int \<times> int \<Rightarrow> bool" where
  "tuple_le t u = (tuple_less t u \<or> t = u)"

subsection \<open>The surroundings of a run\<close>

text \<open>What one run reads: \<open>os.environ\<close>, the files it can open, what \<open>json.load\<close> and
  \<open>json.loads\<close> make of a text (\<open>None\<close> is \<open>JSONDecodeError\<close>), how
  \<open>git show {ref}:{path}\<close>, \<open>git diff --name-only {range} -- {path}\<close> and
  \<open>git rev-parse --verify {name}\<close> end, the interpreter's limit on the digits of an integer
  conversion, and the decimal digits of its Unicode database from 128 on.\<close>

record world =
  environ :: "pystr \<Rightarrow> pystr option"
  files :: "pystr \<Rightarrow> pystr option"
  json_loads :: "pystr \<Rightarrow> json option"
  git_show_output :: "pystr \<Rightarrow> completed"
  git_diff_output :: "pystr \<Rightarrow> pystr \<Rightarrow> completed"
  git_rev_parse :: "pystr \<Rightarrow> completed"
  int_max_str_digits :: nat
  unicode_decimal :: "nat \<Rightarrow> nat option"

definition read_json :: "world \<Rightarrow> pystr \<Rightarrow> stop + json" where
  "read_json w path =
     (case files w path of
        None \<Rightarrow> Inl (Exit (MissingFile path))
      | Some content \<Rightarrow>
          (case json_loads w content of
             None \<Rightarrow> Inl (Exit (InvalidJSON path))
           | Some data \<Rightarrow> Inr data))"

text \<open>The two helpers catch \<open>subprocess.CalledProcessError\<close> and nothing else.\<close>

definition git_show :: "world \<Rightarrow> pystr \<Rightarrow> pystr \<Rightarrow> exn + pystr option" where
  "git_show w ref path =
     (case git_show_output w (ref @ str '':'' @ path) of
        Stdout output \<Rightarrow> Inr (Some (strip output))
      | CalledProcessError \<Rightarrow> Inr None
      | Uncaught e \<Rightarrow> Inl e)"

definition file_changed :: "world \<Rightarrow> pystr \<Rightarrow> pystr \<Rightarrow> exn + bool" where
  "file_changed w base_ref path =
     (case git_diff_output w (base_ref @ str ''...HEAD'') path of
        Stdout output \<Rightarrow> Inr (strip output \<noteq> [])
      | CalledProcessError \<Rightarrow> Inr False
      | Uncaught e \<Rightarrow> Inl e)"

subsection \<open>parse\_labels\_from\_event\<close>

text \<open>Truth values, \<open>dict.get\<close>, iteration and hashing as Python defines them on the
  values \<open>json.load\<close> returns.\<close>

fun truthy :: "json \<Rightarrow> bool" where
  "truthy JNull = False"
| "truthy (JBool b) = b"
| "truthy (JInt n) = (n \<noteq> 0)"
| "truthy (JFloat nonzero) = nonzero"
| "truthy (JStr s) = (s \<noteq> [])"
| "truthy (JList xs) = (xs \<noteq> [])"
| "truthy (JObj kvs) = (kvs \<noteq> [])"

fun dict_get :: "json \<Rightarrow> pystr \<Rightarrow> json \<Rightarrow> exn + json" where
  "dict_get (JObj kvs) k dflt = (case map_of kvs k of None \<Rightarrow> Inr dflt | Some v \<Rightarrow> Inr v)"
| "dict_get v k dflt = Inl AttributeError"

fun py_iter :: "json \<Rightarrow> exn + json list" where
  "py_iter (JList xs) = Inr xs"
| "py_iter (JStr s) = Inr (map (\<lambda>c. JStr [c]) s)"
| "py_iter (JObj kvs) = Inr (map (\<lambda>kv. JStr (fst kv)) kvs)"
| "py_iter v = Inl TypeError"

fun hashable :: "json \<Rightarrow> bool" where
  "hashable (JList xs) = False"
| "hashable (JObj kvs) = False"
| "hashable v = True"

text \<open>The loop over the labels; the set \<open>labels\<close> is a list without repetitions. (A
  Python set also identifies \<open>1\<close>, \<open>1.0\<close> and \<open>True\<close>; no string is concerned, and
  \<open>main\<close> only asks whether the string \<open>release\<close> is in the set.)\<close>

fun add_labels :: "json list \<Rightarrow> json list \<Rightarrow> exn + json list" where
  "add_labels [] labels = Inr labels"
| "add_labels (label # rest) labels =
     (case (case label of JObj kvs \<Rightarrow> dict_get label (str ''name'') JNull | _ \<Rightarrow> Inr JNull) of
        Inl e \<Rightarrow> Inl e
      | Inr name \<Rightarrow>
          if truthy name
          then (if hashable name then add_labels rest (List.insert name labels)
                else Inl TypeError)
          else add_labels rest labels)"

definition parse_labels_from_event :: "world \<Rightarrow> exn + json list" where
  "parse_labels_from_event w =
     (case environ w (str ''GITHUB_EVENT_PATH'') of
        None \<Rightarrow> Inr []
      | Some event_path \<Rightarrow>
     if event_path = [] then Inr []
     else case files w event_path of
        None \<Rightarrow> Inr []
      | Some content \<Rightarrow>
     case json_loads w content of
        None \<Rightarrow> Inr []
      | Some event \<Rightarrow>
     case dict_get event (str ''pull_request'') JNull of
        Inl e \<Rightarrow> Inl e
      | Inr pr \<Rightarrow>
     case pr of
        JObj kvs \<Rightarrow>
          if \<not> truthy pr then Inr []
          else (case dict_get pr (str ''labels'') (JList []) of
                  Inl e \<Rightarrow> Inl e
                | Inr found \<Rightarrow>
                    (case py_iter (if truthy found then found else JList []) of
                       Inl e \<Rightarrow> Inl e
                     | Inr items \<Rightarrow> add_labels items []))
      | _ \<Rightarrow> Inr [])"

subsection \<open>resolve\_base\_ref\<close>

text \<open>The loop over the candidates: the first name that \<open>git rev-parse --verify\<close> accepts;
  \<open>CalledProcessError\<close> moves on to the next name, any other exception ends the loop.\<close>

fun first_verified :: "world \<Rightarrow> pystr list \<Rightarrow> exn + pystr option" where
  "first_verified w [] = Inr None"
| "first_verified w (candidate # rest) =
     (case git_rev_parse w candidate of
        Stdout output \<Rightarrow> Inr (Some candidate)
      | CalledProcessError \<Rightarrow> first_verified w rest
      | Uncaught e \<Rightarrow> Inl e)"

definition candidates :: "pystr list" where
  "candidates = [str ''origin/main'', str ''origin/master'', str ''main'', str ''master'']"

definition resolve_base_ref :: "world \<Rightarrow> exn + pystr option" where
  "resolve_base_ref w =
     (case environ w (str ''GITHUB_BASE_REF'') of
        None \<Rightarrow> first_verified w candidates
      | Some base_ref \<Rightarrow>
          if base_ref \<noteq> [] then Inr (Some (str ''origin/'' @ base_ref))
          else first_verified w candidates)"

subsection \<open>main\<close>

text \<open>\<open>a <= b\<close> on two build numbers. Both have passed \<open>isinstance(.., int)\<close> when the
  script compares them; operands of any other type do not occur and are given as
  \<open>TypeError\<close>.\<close>

definition py_le :: "json \<Rightarrow> json \<Rightarrow> exn + bool" where
  "py_le a b =
     (case int_value a of
        None \<Rightarrow> Inl TypeError
      | Some x \<Rightarrow> (case int_value b of None \<Rightarrow> Inl TypeError | Some y \<Rightarrow> Inr (x \<le> y)))"

text \<open>\<open>semver_tuple(record["marketing_version"])\<close>: only a string has \<open>split\<close>.\<close>

definition version_of :: "world \<Rightarrow> json \<Rightarrow> exn + (int \<times> int \<times> int)" where
  "version_of w v =
     (case v of
        JStr s \<Rightarrow> semver_tuple (unicode_decimal w) (int_max_str_digits w) s
      | _ \<Rightarrow> Inl AttributeError)"

text \<open>The body of \<open>if changed:\<close> (lines 133 to 153), followed by the last line of
  \<open>main\<close>.\<close>

definition changed_rules :: "world \<Rightarrow> bool \<Rightarrow> json \<Rightarrow> json \<Rightarrow> stop + notice" where
  "changed_rules w release_requested current base =
     (case getitem current (str ''build_number'') of
        Inl e \<Rightarrow> Inl (Raise e)
      | Inr current_build \<Rightarrow>
     case getitem base (str ''build_number'') of
        Inl e \<Rightarrow> Inl (Raise e)
      | Inr base_build \<Rightarrow>
     case py_le current_build base_build of
        Inl e \<Rightarrow> Inl (Raise e)
      | Inr not_increased \<Rightarrow>
     if not_increased then Inl (Exit (BuildMustIncrease current_build base_build))
     else case getitem current (str ''marketing_version'') of
        Inl e \<Rightarrow> Inl (Raise e)
      | Inr current_marketing \<Rightarrow>
     case version_of w current_marketing of
        Inl e \<Rightarrow> Inl (Raise e)
      | Inr current_version \<Rightarrow>
     case getitem base (str ''marketing_version'') of
        Inl e \<Rightarrow> Inl (Raise e)
      | Inr base_marketing \<Rightarrow>
     case version_of w base_marketing of
        Inl e \<Rightarrow> Inl (Raise e)
      | Inr base_version \<Rightarrow>
     if tuple_less current_version base_version
     then Inl (Exit (VersionMustNotDecrease current_marketing base_marketing))
     else if release_requested \<and> tuple_le current_version base_version
     then Inl (Exit (VersionMustIncrease current_marketing base_marketing))
     else Inr Passed)"

definition release_requested :: "json list \<Rightarrow> bool" where
  "release_requested labels = list_ex (\<lambda>l. l \<in> set labels) RELEASE_LABELS"

definition main :: "world \<Rightarrow> stop + notice" where
  "main w =
     (case read_json w VERSION_PATH of
        Inl e \<Rightarrow> Inl e
      | Inr current \<Rightarrow>
     case validate_payload (unicode_decimal w) current VERSION_PATH of
        Inl e \<Rightarrow> Inl e
      | Inr _ \<Rightarrow>
     case resolve_base_ref w of
        Inl e \<Rightarrow> Inl (Raise e)
      | Inr None \<Rightarrow> Inr CurrentOnly
      | Inr (Some base_ref) \<Rightarrow>
     if base_ref = [] then Inr CurrentOnly
     else case file_changed w base_ref VERSION_PATH of
        Inl e \<Rightarrow> Inl (Raise e)
      | Inr changed \<Rightarrow>
     case parse_labels_from_event w of
        Inl e \<Rightarrow> Inl (Raise e)
      | Inr labels \<Rightarrow>
     if release_requested labels \<and> \<not> changed
     then Inl (Exit (ReleaseWithoutBump VERSION_PATH))
     else case git_show w base_ref VERSION_PATH of
        Inl e \<Rightarrow> Inl (Raise e)
      | Inr None \<Rightarrow> Inr (InitialVersion VERSION_PATH base_ref)
      | Inr (Some base_contents) \<Rightarrow>
     case json_loads w base_contents of
        None \<Rightarrow> Inl (Exit (InvalidBaseJSON VERSION_PATH base_ref))
      | Some base \<Rightarrow>
     case validate_payload (unicode_decimal w) base (VERSION_PATH @ str '' at '' @ base_ref) of
        Inl e \<Rightarrow> Inl e
      | Inr _ \<Rightarrow>
     if changed then changed_rules w (release_requested labels) current base
     else Inr Passed)"

subsection \<open>The specification's notions\<close>

text \<open>A component of a semantic version as the specification words it: a non-negative
  decimal integer with no leading zero, except the literal \<open>0\<close>. The first argument says
  which characters count as digits after the first: the digits \<open>0\<close>..\<open>9\<close> for the
  specification, every decimal digit of Unicode for what the pattern matches.\<close>

fun numeric_id :: "(nat \<Rightarrow> bool) \<Rightarrow> pystr \<Rightarrow> bool" where
  "numeric_id digit [] = False"
| "numeric_id digit (d # ds) =
     (if d = ord (CHR ''0'') then ds = []
      else ord (CHR ''1'') \<le> d \<and> d \<le> ord (CHR ''9'') \<and> list_all digit ds)"

text \<open>A string that is exactly \<open>MAJOR.MINOR.PATCH\<close>, with no other character.\<close>

definition is_semver :: "pystr \<Rightarrow> bool" where
  "is_semver s =
     (case split_on (ord (CHR ''.'')) s of
        [a, b, c] \<Rightarrow> numeric_id ascii_digit a \<and> numeric_id ascii_digit b \<and> numeric_id ascii_digit c
      | _ \<Rightarrow> False)"

text \<open>The decimal notation of a natural number, the text \<open>str(n)\<close> of Python.\<close>

fun show_nat :: "nat \<Rightarrow> pystr" where
  "show_nat n = (if n < 10 then [48 + n] else show_nat (n div 10) @ [48 + n mod 10])"

declare show_nat.simps [simp del]

text \<open>The conversion of one part succeeds as far as the interpreter's limit goes.\<close>

definition convertible :: "(nat \<Rightarrow> nat option) \<Rightarrow> nat \<Rightarrow> pystr \<Rightarrow> bool" where
  "convertible wide lim part = (\<not> over_limit lim (length (filter (is_decimal wide) part)))"

subsection \<open>Example runs\<close>

text \<open>A Unicode database that knows, from 128 on, the Arabic-Indic digits
  U+0660..U+0669.\<close>

definition arabic_indic :: "nat \<Rightarrow> nat option" where
  "arabic_indic c = (if 1632 \<le> c \<and> c \<le> 1641 then Some (c - 1632) else None)"

definition version_record :: "pystr \<Rightarrow> json \<Rightarrow> json" where
  "version_record version build =
     JObj [(str ''marketing_version'', JStr version), (str ''build_number'', build)]"

text \<open>A pull request against \<open>main\<close>: the two records, whether the diff lists the version
  file, and whether the label \<open>release\<close> is applied. The texts \<open>current\<close>, \<open>base\<close> and
  \<open>event\<close> stand for the contents of the three JSON documents.\<close>

definition pull_request :: "json \<Rightarrow> json \<Rightarrow> bool \<Rightarrow> bool \<Rightarrow> world" where
  "pull_request current base changed release =
     \<lparr> environ = [str ''GITHUB_BASE_REF'' \<mapsto> str ''main'',
                  str ''GITHUB_EVENT_PATH'' \<mapsto> str ''/event.json''],
       files = [str ''Docs/version.json'' \<mapsto> str ''current'', str ''/event.json'' \<mapsto> str ''event''],
       json_loads =
         [str ''current'' \<mapsto> current, str ''base'' \<mapsto> base,
          str ''event'' \<mapsto> JObj [(str ''pull_request'', JObj [(str ''labels'',
             JList (if release then [JObj [(str ''name'', JStr (str ''release''))]] else []))])]],
       git_show_output =
         (\<lambda>spec. if spec = str ''origin/main:Docs/version.json''
                  then Stdout (str ''base'' @ [newline]) else CalledProcessError),
       git_diff_output =
         (\<lambda>range path.
            if range = str ''origin/main...HEAD'' \<and> path = str ''Docs/version.json''
            then Stdout (if changed then str ''Docs/version.json'' @ [newline] else [])
            else CalledProcessError),
       git_rev_parse =
         (\<lambda>name. if name = str ''origin/main'' then Stdout (str ''0a1b2c3'' @ [newline])
                  else CalledProcessError),
       int_max_str_digits = 4300,
       unicode_decimal = arabic_indic \<rparr>"

text \<open>The same pull request when the base branch has no version file yet.\<close>

definition initial_pr :: world where
  "initial_pr = pull_request (version_record (str ''1.2.0'') (JInt 5)) JNull True True
     \<lparr>git_show_output := (\<lambda>spec. CalledProcessError)\<rparr>"

text \<open>Three more pull requests: a branch that never touched the version file while
  \<open>main\<close> moved on to 2.0.0; a touched file whose build number stayed at 5; a touched
  file with the label \<open>release\<close>, build 6 over build 5, and a marketing version to choose.\<close>

definition stale_branch :: world where
  "stale_branch =
     pull_request (version_record (str ''1.0.0'') (JInt 6))
       (version_record (str ''2.0.0'') (JInt 5)) False False"

definition same_build :: world where
  "same_build =
     pull_request (version_record (str ''1.2.0'') (JInt 5))
       (version_record (str ''1.2.0'') (JInt 5)) True False"

definition release_pr :: "pystr \<Rightarrow> world" where
  "release_pr version =
     pull_request (version_record version (JInt 6))
       (version_record (str ''1.2.0'') (JInt 5)) True True"

text \<open>A runner on which git cannot be started: every git command raises \<open>OSError\<close>.\<close>

definition no_git :: world where
  "no_git =
     pull_request (version_record (str ''1.2.0'') (JInt 5)) JNull True False
       \<lparr>git_show_output := (\<lambda>spec. Uncaught OSError),
        git_diff_output := (\<lambda>range path. Uncaught OSError),
        git_rev_parse := (\<lambda>name. Uncaught OSError)\<rparr>"

section \<open>Properties\<close>

subsection \<open>Unfolding a concrete run\<close>

lemmas text_defs = str_def ord_def newline_def

lemmas validator_defs =
  validate_payload_def re_match_def SEMVER_RE_def NUMERIC_def is_decimal_def todecimal_def
  text_defs VERSION_PATH_def version_record_def

lemmas run_defs =
  validator_defs main_def read_json_def resolve_base_ref_def candidates_def file_changed_def
  git_show_def parse_labels_from_event_def release_requested_def RELEASE_LABELS_def
  changed_rules_def py_le_def version_of_def semver_tuple_def py_int_def to_ascii_def
  ascii_space_def ascii_digit_def strip_def strip_with_def py_space_def over_limit_def
  decimal_def tuple_le_def pull_request_def arabic_indic_def Let_def

subsection \<open>What the pattern matches\<close>

lemma decimal_not_special:
  assumes "is_decimal wide c"
  shows "c \<noteq> ord (CHR ''.'')" "c \<noteq> newline"
  using assms by (auto simp: is_decimal_def todecimal_def text_defs split: if_splits)

lemma many_mem:
  "(j, r) \<in> set (many wide a (i, s)) \<longleftrightarrow>
     (\<exists>d. s = d @ r \<and> j = i + length d \<and> list_all (atom_ok wide a) d)"
proof (induction s arbitrary: i)
  case Nil
  show ?case by auto
next
  case (Cons x xs)
  show ?case
  proof (cases "atom_ok wide a x")
    case True
    then show ?thesis
      by (auto simp: Cons Cons_eq_append_conv)
  next
    case False
    then show ?thesis
      by (auto simp: Cons_eq_append_conv)
  qed
qed

lemma numeric_mem:
  "(j, r) \<in> set (run wide NUMERIC (i, s)) \<longleftrightarrow>
     (\<exists>n. s = n @ r \<and> j = i + length n \<and> numeric_id (is_decimal wide) n)"
proof (cases s)
  case Nil
  then show ?thesis by (simp add: NUMERIC_def)
next
  case (Cons x xs)
  show ?thesis
  proof
    assume "(j, r) \<in> set (run wide NUMERIC (i, s))"
    then consider (zero) "x = ord (CHR ''0'')" "j = Suc i" "r = xs"
      | (more) "ord (CHR ''1'') \<le> x" "x \<le> ord (CHR ''9'')"
          "(j, r) \<in> set (many wide Digit (Suc i, xs))"
      by (auto simp: NUMERIC_def Cons split: if_splits)
    then show "\<exists>n. s = n @ r \<and> j = i + length n \<and> numeric_id (is_decimal wide) n"
    proof cases
      case zero
      then have "s = [x] @ r \<and> j = i + length [x] \<and> numeric_id (is_decimal wide) [x]"
        by (simp add: Cons)
      then show ?thesis by blast
    next
      case more
      then obtain d where d: "xs = d @ r" "j = Suc i + length d" "list_all (is_decimal wide) d"
        by (auto simp: many_mem list_all_iff)
      from more(1) have "x \<noteq> ord (CHR ''0'')" by (simp add: ord_def)
      with more(1,2) d
      have "s = (x # d) @ r \<and> j = i + length (x # d) \<and> numeric_id (is_decimal wide) (x # d)"
        by (simp add: Cons)
      then show ?thesis by blast
    qed
  next
    assume "\<exists>n. s = n @ r \<and> j = i + length n \<and> numeric_id (is_decimal wide) n"
    then obtain n where n: "s = n @ r" "j = i + length n" "numeric_id (is_decimal wide) n"
      by blast
    from n(3) obtain d ds where nd: "n = d # ds" by (cases n) auto
    with n Cons have x: "x = d" "xs = ds @ r" by auto
    show "(j, r) \<in> set (run wide NUMERIC (i, s))"
    proof (cases "d = ord (CHR ''0'')")
      case True
      with n nd x show ?thesis by (simp add: NUMERIC_def Cons)
    next
      case False
      with n(3) nd have range: "ord (CHR ''1'') \<le> d" "d \<le> ord (CHR ''9'')"
        and rest: "list_all (is_decimal wide) ds"
        by simp_all
      from rest x n nd have "(j, r) \<in> set (many wide Digit (Suc i, xs))"
        by (auto simp: many_mem list_all_iff)
      with range False x show ?thesis by (simp add: NUMERIC_def Cons)
    qed
  qed
qed

lemma dot_mem: "(j, r) \<in> set (run wide (One (Chr c)) (i, s)) \<longleftrightarrow> s = c # r \<and> j = Suc i"
  by (cases s) auto

lemma eol_mem:
  "(j, r) \<in> set (run wide Eol (i, s)) \<longleftrightarrow> j = i \<and> r = s \<and> (s = [] \<or> s = [newline])"
  by auto

lemma seq_mem:
  "(j, r) \<in> set (run wide (Seq r1 r2) c) \<longleftrightarrow>
     (\<exists>k t. (k, t) \<in> set (run wide r1 c) \<and> (j, r) \<in> set (run wide r2 (k, t)))"
  by auto

lemma bol_seq: "run wide (Seq Bol r) (0, s) = run wide r (0, s)"
  by simp

lemma some_cursor: "xs \<noteq> [] \<longleftrightarrow> (\<exists>j r. (j, r) \<in> set xs)"
  by (cases xs) auto

lemma tail_mem:
  "(j, r) \<in> set (run wide (Seq NUMERIC Eol) (i, s)) \<longleftrightarrow>
     (\<exists>n. s = n @ r \<and> j = i + length n \<and> numeric_id (is_decimal wide) n
          \<and> (r = [] \<or> r = [newline]))"
  unfolding seq_mem numeric_mem eol_mem by auto

lemma part_mem:
  "(j, r) \<in> set (run wide (Seq NUMERIC (Seq (One (Chr c)) rest)) (i, s)) \<longleftrightarrow>
     (\<exists>n t. s = n @ c # t \<and> numeric_id (is_decimal wide) n
            \<and> (j, r) \<in> set (run wide rest (Suc (i + length n), t)))"
  unfolding seq_mem numeric_mem dot_mem by auto

lemma accepted_shape:
  "re_match wide SEMVER_RE s \<longleftrightarrow>
     (\<exists>a b c e. numeric_id (is_decimal wide) a \<and> numeric_id (is_decimal wide) b
        \<and> numeric_id (is_decimal wide) c \<and> (e = [] \<or> e = [newline])
        \<and> s = a @ ord (CHR ''.'') # b @ ord (CHR ''.'') # c @ e)"
proof
  assume "re_match wide SEMVER_RE s"
  then show "\<exists>a b c e. numeric_id (is_decimal wide) a \<and> numeric_id (is_decimal wide) b
        \<and> numeric_id (is_decimal wide) c \<and> (e = [] \<or> e = [newline])
        \<and> s = a @ ord (CHR ''.'') # b @ ord (CHR ''.'') # c @ e"
    unfolding re_match_def SEMVER_RE_def bol_seq some_cursor part_mem tail_mem by blast
next
  assume "\<exists>a b c e. numeric_id (is_decimal wide) a \<and> numeric_id (is_decimal wide) b
        \<and> numeric_id (is_decimal wide) c \<and> (e = [] \<or> e = [newline])
        \<and> s = a @ ord (CHR ''.'') # b @ ord (CHR ''.'') # c @ e"
  then obtain a b c e where parts: "numeric_id (is_decimal wide) a"
    "numeric_id (is_decimal wide) b" "numeric_id (is_decimal wide) c"
    and e: "e = [] \<or> e = [newline]"
    and s: "s = a @ ord (CHR ''.'') # b @ ord (CHR ''.'') # c @ e"
    by blast
  have patch: "\<exists>j. (j, e) \<in> set (run wide (Seq NUMERIC Eol) (i, c @ e))" for i
    unfolding tail_mem using parts(3) e by blast
  have minor: "\<exists>j. (j, e) \<in> set (run wide
      (Seq NUMERIC (Seq (One (Chr (ord (CHR ''.'')))) (Seq NUMERIC Eol)))
      (i, b @ ord (CHR ''.'') # c @ e))" for i
    unfolding part_mem using parts(2) patch by blast
  have "\<exists>j. (j, e) \<in> set (run wide (Seq NUMERIC (Seq (One (Chr (ord (CHR ''.'')))) (Seq NUMERIC
      (Seq (One (Chr (ord (CHR ''.'')))) (Seq NUMERIC Eol))))) (0, s))"
    unfolding part_mem [of _ _ _ _ _ 0] s using parts(1) minor by blast
  then show "re_match wide SEMVER_RE s"
    unfolding re_match_def SEMVER_RE_def bol_seq some_cursor by blast
qed

text \<open>The parts of an accepted string.\<close>

lemma split_on_whole: "sep \<notin> set a \<Longrightarrow> split_on sep a = [a]"
  by (induction a) auto

lemma split_on_first: "sep \<notin> set a \<Longrightarrow> split_on sep (a @ sep # rest) = a # split_on sep rest"
  by (induction a) auto

lemma split_on_nonempty: "split_on sep s \<noteq> []"
  by (induction s) (auto split: list.splits)

lemma split_on_one: "split_on sep s = [p] \<Longrightarrow> s = p \<and> sep \<notin> set p"
proof (induction s arbitrary: p)
  case Nil
  then show ?case by simp
next
  case (Cons x xs)
  then show ?case
    using split_on_nonempty [of sep xs] by (auto split: if_splits list.splits)
qed

lemma split_on_more:
  "split_on sep s = p # q # qs \<Longrightarrow>
     \<exists>rest. s = p @ sep # rest \<and> sep \<notin> set p \<and> split_on sep rest = q # qs"
proof (induction s arbitrary: p)
  case Nil
  then show ?case by simp
next
  case (Cons x xs)
  show ?case
  proof (cases "x = sep")
    case True
    with Cons.prems show ?thesis by auto
  next
    case False
    with Cons.prems obtain p' where p': "split_on sep xs = p' # q # qs" "p = x # p'"
      by (auto split: list.splits)
    from Cons.IH [OF p'(1)] obtain rest where
      "xs = p' @ sep # rest" "sep \<notin> set p'" "split_on sep rest = q # qs" by blast
    with p' False show ?thesis by auto
  qed
qed

lemma numeric_id_decimal:
  "numeric_id (is_decimal wide) n \<Longrightarrow> n \<noteq> [] \<and> list_all (is_decimal wide) n"
  by (cases n) (auto simp: is_decimal_def todecimal_def ord_def split: if_splits)

lemma numeric_id_no_dot: "numeric_id (is_decimal wide) n \<Longrightarrow> ord (CHR ''.'') \<notin> set n"
  using numeric_id_decimal [of wide n] decimal_not_special(1) [of wide]
  by (auto simp: list_all_iff)

lemma split_accepted:
  assumes "numeric_id (is_decimal wide) a" "numeric_id (is_decimal wide) b"
    "numeric_id (is_decimal wide) c" "e = [] \<or> e = [newline]"
  shows "split_on (ord (CHR ''.'')) (a @ ord (CHR ''.'') # b @ ord (CHR ''.'') # c @ e)
    = [a, b, c @ e]"
proof -
  from assms(3,4) have "ord (CHR ''.'') \<notin> set (c @ e)"
    using numeric_id_no_dot [of wide c] by (auto simp: text_defs)
  then show ?thesis
    using assms(1,2) numeric_id_no_dot [of wide a] numeric_id_no_dot [of wide b]
    by (simp add: split_on_first split_on_whole)
qed

lemma ascii_digit_decimal: "ascii_digit c \<Longrightarrow> is_decimal wide c"
  by (simp add: ascii_digit_def is_decimal_def todecimal_def)

lemma decimal_below_128: "c < 128 \<Longrightarrow> is_decimal wide c = ascii_digit c"
  by (simp add: ascii_digit_def is_decimal_def todecimal_def)

lemma numeric_id_mono:
  assumes "numeric_id p n" "\<And>c. c \<in> set n \<Longrightarrow> p c \<Longrightarrow> q c"
  shows "numeric_id q n"
  using assms by (cases n) (auto simp: list_all_iff split: if_splits)

lemma numeric_id_ascii: "numeric_id ascii_digit n \<Longrightarrow> numeric_id (is_decimal wide) n"
  by (erule numeric_id_mono) (rule ascii_digit_decimal)

lemma is_semver_shape:
  "is_semver s \<longleftrightarrow>
     (\<exists>a b c. numeric_id ascii_digit a \<and> numeric_id ascii_digit b \<and> numeric_id ascii_digit c
        \<and> s = a @ ord (CHR ''.'') # b @ ord (CHR ''.'') # c)"
proof
  assume "is_semver s"
  then obtain a b c where abc: "split_on (ord (CHR ''.'')) s = [a, b, c]"
    "numeric_id ascii_digit a" "numeric_id ascii_digit b" "numeric_id ascii_digit c"
    by (auto simp: is_semver_def split: list.splits)
  from split_on_more [OF abc(1)] obtain r1 where
    r1: "s = a @ ord (CHR ''.'') # r1" "split_on (ord (CHR ''.'')) r1 = [b, c]" by blast
  from split_on_more [OF r1(2)] obtain r2 where
    r2: "r1 = b @ ord (CHR ''.'') # r2" "split_on (ord (CHR ''.'')) r2 = [c]" by blast
  from split_on_one [OF r2(2)] have "r2 = c" by simp
  with r1 r2 abc show "\<exists>a b c. numeric_id ascii_digit a \<and> numeric_id ascii_digit b
      \<and> numeric_id ascii_digit c \<and> s = a @ ord (CHR ''.'') # b @ ord (CHR ''.'') # c"
    by blast
next
  assume "\<exists>a b c. numeric_id ascii_digit a \<and> numeric_id ascii_digit b \<and> numeric_id ascii_digit c
      \<and> s = a @ ord (CHR ''.'') # b @ ord (CHR ''.'') # c"
  then obtain a b c where abc: "numeric_id ascii_digit a" "numeric_id ascii_digit b"
    "numeric_id ascii_digit c" "s = a @ ord (CHR ''.'') # b @ ord (CHR ''.'') # c" by blast
  have "numeric_id (is_decimal (\<lambda>c. None)) a" "numeric_id (is_decimal (\<lambda>c. None)) b"
    "numeric_id (is_decimal (\<lambda>c. None)) c"
    using abc(1-3) by (auto intro: numeric_id_ascii)
  from split_accepted [OF this, of "[]"] abc
  show "is_semver s"
    by (simp add: is_semver_def)
qed

text \<open>Every semantic version is accepted, with or without a final newline; among the
  strings of characters below 128 nothing else is. (From 128 on, every string that
  replaces digits after the first of a component by other decimal digits of Unicode is
  accepted too: \<open>accepted_shape\<close>.)\<close>

lemma semver_accepted:
  assumes "is_semver t" "e = [] \<or> e = [newline]"
  shows "re_match wide SEMVER_RE (t @ e)"
proof -
  from assms(1) obtain a b c where abc: "numeric_id ascii_digit a" "numeric_id ascii_digit b"
    "numeric_id ascii_digit c" "t = a @ ord (CHR ''.'') # b @ ord (CHR ''.'') # c"
    unfolding is_semver_shape by blast
  from abc(1-3) [THEN numeric_id_ascii, of wide] assms(2) abc(4) show ?thesis
    unfolding accepted_shape by auto
qed

lemma accepted_ascii_iff:
  assumes "list_all (\<lambda>c. c < 128) s"
  shows "re_match wide SEMVER_RE s \<longleftrightarrow> is_semver s \<or> (\<exists>t. s = t @ [newline] \<and> is_semver t)"
proof
  assume "re_match wide SEMVER_RE s"
  then obtain a b c e where parts: "numeric_id (is_decimal wide) a"
    "numeric_id (is_decimal wide) b" "numeric_id (is_decimal wide) c"
    and e: "e = [] \<or> e = [newline]"
    and s: "s = a @ ord (CHR ''.'') # b @ ord (CHR ''.'') # c @ e"
    unfolding accepted_shape by blast
  have ascii: "numeric_id ascii_digit n"
    if "numeric_id (is_decimal wide) n" "set n \<subseteq> set s" for n
  proof (rule numeric_id_mono [OF that(1)])
    fix c assume "c \<in> set n" "is_decimal wide c"
    with that(2) assms have "c < 128" by (auto simp: list_all_iff)
    with \<open>is_decimal wide c\<close> show "ascii_digit c" by (simp add: decimal_below_128)
  qed
  from parts s have "numeric_id ascii_digit a" "numeric_id ascii_digit b" "numeric_id ascii_digit c"
    by (auto intro!: ascii)
  then have "is_semver (a @ ord (CHR ''.'') # b @ ord (CHR ''.'') # c)"
    unfolding is_semver_shape by blast
  with e s show "is_semver s \<or> (\<exists>t. s = t @ [newline] \<and> is_semver t)"
    by auto
next
  assume "is_semver s \<or> (\<exists>t. s = t @ [newline] \<and> is_semver t)"
  then show "re_match wide SEMVER_RE s"
    using semver_accepted [of s "[]" wide] semver_accepted [of _ "[newline]" wide] by auto
qed

lemma record_accepted_iff:
  "validate_payload wide (version_record v b) source = Inr () \<longleftrightarrow>
     re_match wide SEMVER_RE v \<and> (\<exists>n. int_value b = Some n \<and> 0 \<le> n)"
  by (auto simp: validate_payload_def version_record_def str_def ord_def split: option.splits)

subsection \<open>The validator\<close>

text \<open>
  C4. The validator is to accept a marketing version exactly when it is
  \<open>MAJOR.MINOR.PATCH\<close> and nothing more. The pattern ends in \<open>$\<close>, which also holds just
  before a final newline, so the record whose marketing version is \<open>1.2.3\<close> followed by a
  newline passes \<open>validate_payload\<close> although that string is not a semantic version.
\<close>

theorem trailing_newline_accepted:
  "validate_payload wide (version_record (str ''1.2.3'' @ [newline]) (JInt 5)) VERSION_PATH = Inr ()
   \<and> \<not> is_semver (str ''1.2.3'' @ [newline])"
  by (simp add: validator_defs is_semver_def ascii_digit_def)

text \<open>
  C5. The validator is to accept a build number exactly when it is an integer that is not
  negative, and to reject booleans. \<open>isinstance(True, int)\<close> holds in Python, so the record
  whose build number is the JSON value \<open>true\<close> passes \<open>validate_payload\<close>.
\<close>

theorem boolean_build_number_accepted:
  "validate_payload wide (version_record (str ''1.2.0'') (JBool True)) VERSION_PATH = Inr ()"
  by (simp add: validator_defs)

lemma valid_record_fields:
  assumes "validate_payload wide data source = Inr ()"
  shows "\<exists>v b n. getitem data (str ''marketing_version'') = Inr (JStr v)
           \<and> re_match wide SEMVER_RE v
           \<and> getitem data (str ''build_number'') = Inr b \<and> int_value b = Some n \<and> 0 \<le> n"
proof (cases data)
  case (JObj kvs)
  with assms show ?thesis
    by (auto simp: validate_payload_def split: if_splits option.splits json.splits)
qed (use assms in \<open>auto simp: validate_payload_def split: if_splits\<close>)

subsection \<open>semver\_tuple on accepted strings\<close>

text \<open>Two facts of every Unicode database are used below: the value of a decimal digit
  is less than ten, and no whitespace character is a decimal digit.\<close>

lemma to_ascii_decimal:
  assumes "is_decimal wide c"
    and "\<And>c v. wide c = Some v \<Longrightarrow> v < 10"
    and "\<And>c. py_space c \<Longrightarrow> wide c = None"
  shows "ascii_digit (to_ascii wide c)"
proof (cases "c < 128")
  case True
  with assms(1) have "48 \<le> c \<and> c \<le> 57"
    by (auto simp: is_decimal_def todecimal_def split: if_splits)
  then show ?thesis by (simp add: to_ascii_def ascii_digit_def)
next
  case False
  with assms(1) obtain v where v: "wide c = Some v"
    by (auto simp: is_decimal_def todecimal_def)
  with assms(3) [of c] have "\<not> py_space c" by auto
  with False v assms(2) [OF v] show ?thesis
    by (simp add: to_ascii_def todecimal_def ascii_digit_def ord_def)
qed

lemma to_ascii_below: "c < 127 \<Longrightarrow> to_ascii wide c = c"
  by (simp add: to_ascii_def)

lemma component_ascii:
  assumes "numeric_id (is_decimal wide) n"
    and "\<And>c v. wide c = Some v \<Longrightarrow> v < 10"
    and "\<And>c. py_space c \<Longrightarrow> wide c = None"
  shows "numeric_id ascii_digit (map (to_ascii wide) n)"
proof (cases n)
  case Nil
  with assms(1) show ?thesis by simp
next
  case (Cons d ds)
  show ?thesis
  proof (cases "d = ord (CHR ''0'')")
    case True
    with assms(1) Cons show ?thesis by (simp add: to_ascii_def ord_def)
  next
    case False
    with assms(1) Cons have d: "ord (CHR ''1'') \<le> d" "d \<le> ord (CHR ''9'')"
      and ds: "list_all (is_decimal wide) ds" by simp_all
    from d have "to_ascii wide d = d" by (simp add: to_ascii_def ord_def)
    moreover from ds have "list_all ascii_digit (map (to_ascii wide) ds)"
      using to_ascii_decimal [OF _ assms(2,3)] by (auto simp: list_all_iff)
    ultimately show ?thesis using False d Cons by simp
  qed
qed

lemma ascii_digit_plain:
  assumes "ascii_digit c"
  shows "\<not> ascii_space c" "c \<noteq> ord (CHR ''-'')" "c \<noteq> ord (CHR ''+'')" "c \<noteq> ord (CHR ''_'')"
  using assms by (auto simp: ascii_digit_def ascii_space_def ord_def)

lemma numeric_id_digits: "numeric_id ascii_digit t \<Longrightarrow> t \<noteq> [] \<and> list_all ascii_digit t"
  by (cases t) (auto simp: ascii_digit_def ord_def split: if_splits)

lemma strip_component:
  assumes "t \<noteq> []" "list_all ascii_digit t" "e = [] \<or> e = [newline]"
  shows "strip_with ascii_space (t @ e) = t"
proof -
  from assms(1,2) have first: "\<not> ascii_space (hd t)" and final: "\<not> ascii_space (last t)"
    by (auto simp: list_all_iff ascii_digit_plain(1))
  from assms(1) first have "dropWhile ascii_space (t @ e) = t @ e"
    by (cases t) auto
  moreover from assms(3)
  have "dropWhile ascii_space (rev e @ rev t) = dropWhile ascii_space (rev t)"
    by (auto simp: ascii_space_def text_defs)
  moreover from assms(1) final have "dropWhile ascii_space (rev t) = rev t"
    by (cases "rev t") (auto simp: last_rev [symmetric] hd_rev)
  ultimately show ?thesis by (simp add: strip_with_def)
qed

lemma grouped_digits: "t \<noteq> [] \<Longrightarrow> list_all ascii_digit t \<Longrightarrow> grouped t"
  by (induction t rule: grouped.induct) (auto simp: ascii_digit_plain(4))

lemma filter_digits:
  "list_all ascii_digit t \<Longrightarrow> filter (\<lambda>c. c \<noteq> ord (CHR ''_'')) t = t"
  by (induction t) (auto simp: ascii_digit_plain(4))

lemma py_int_component:
  assumes "numeric_id (is_decimal wide) n" "e = [] \<or> e = [newline]"
    and "\<And>c v. wide c = Some v \<Longrightarrow> v < 10"
    and "\<And>c. py_space c \<Longrightarrow> wide c = None"
  shows "py_int wide lim (n @ e) =
    (if over_limit lim (length n) then Inl ValueError
     else Inr (int (decimal (map (to_ascii wide) n))))"
proof -
  let ?t = "map (to_ascii wide) n"
  have t: "?t \<noteq> []" "list_all ascii_digit ?t"
    using numeric_id_digits [OF component_ascii [OF assms(1,3,4)]] by simp_all
  from assms(2) have e: "map (to_ascii wide) e = e"
    by (auto simp: to_ascii_def text_defs)
  from t(1) obtain d ds where ds: "?t = d # ds" by (cases ?t) auto
  with t(2) have d: "d \<noteq> ord (CHR ''-'')" "d \<noteq> ord (CHR ''+'')"
    by (auto simp: ascii_digit_plain)
  have stripped: "strip_with ascii_space (map (to_ascii wide) (n @ e)) = ?t"
    using strip_component [OF t assms(2)] e by simp
  have sign: "(case ?t of [] \<Rightarrow> False | c # r \<Rightarrow> c = ord (CHR ''-'')) = False"
    using ds d by simp
  have body: "(case ?t of [] \<Rightarrow> []
      | c # r \<Rightarrow> if c = ord (CHR ''-'') \<or> c = ord (CHR ''+'') then r else ?t) = ?t"
    using ds d by simp
  show ?thesis
    unfolding py_int_def stripped Let_def sign body filter_digits [OF t(2)]
    using grouped_digits [OF t] by simp
qed

lemma digits_of_component:
  assumes "list_all (is_decimal wide) n" "e = [] \<or> e = [newline]"
  shows "length (filter (is_decimal wide) (n @ e)) = length n"
proof -
  from assms(1) have "filter (is_decimal wide) n = n" by (induction n) auto
  moreover from assms(2) have "filter (is_decimal wide) e = []"
    by (auto simp: is_decimal_def todecimal_def text_defs)
  ultimately show ?thesis by simp
qed

text \<open>\<open>decimal\<close> reads back what \<open>show_nat\<close> writes.\<close>

lemma decimal_snoc: "decimal (ds @ [d]) = 10 * decimal ds + (d - 48)"
  by (simp add: decimal_def)

lemma digit_value:
  assumes "ascii_digit d"
  shows "d - 48 < 10" "48 + (d - 48) = d"
  using assms by (auto simp: ascii_digit_def)

lemma show_zero: "show_nat 0 = str ''0''"
  by (simp add: show_nat.simps [of 0] text_defs)

lemma foldl_grows: "a \<le> foldl (\<lambda>a c. 10 * a + ((c :: nat) - 48)) a ds"
proof (induction ds arbitrary: a)
  case Nil
  show ?case by simp
next
  case (Cons d ds)
  have "a \<le> 10 * a + (d - 48)" by simp
  also have "\<dots> \<le> foldl (\<lambda>a c. 10 * a + ((c :: nat) - 48)) (10 * a + (d - 48)) ds"
    by (rule Cons.IH)
  finally show ?case by simp
qed

lemma decimal_leading:
  assumes "49 \<le> h"
  shows "0 < decimal (h # ds)"
proof -
  from assms have "0 < h - 48" by simp
  also have "\<dots> \<le> decimal (h # ds)"
    using foldl_grows [of "h - 48" ds] by (simp add: decimal_def)
  finally show ?thesis .
qed

lemma show_leading:
  assumes "49 \<le> h" "h \<le> 57" "list_all ascii_digit ds"
  shows "show_nat (decimal (h # ds)) = h # ds"
  using assms(3)
proof (induction ds rule: rev_induct)
  case Nil
  from assms(1,2) show ?case
    by (simp add: decimal_def show_nat.simps [of "h - 48"])
next
  case (snoc d ds)
  then have d: "ascii_digit d" and ih: "show_nat (decimal (h # ds)) = h # ds" by simp_all
  let ?m = "decimal (h # ds)"
  let ?v = "d - 48"
  have v: "?v < 10" using d by (rule digit_value)
  have eq: "decimal (h # ds @ [d]) = 10 * ?m + ?v"
    using decimal_snoc [of "h # ds" d] by simp
  from decimal_leading [OF assms(1), of ds] have "\<not> 10 * ?m + ?v < 10" by simp
  then have "show_nat (10 * ?m + ?v) =
      show_nat ((10 * ?m + ?v) div 10) @ [48 + (10 * ?m + ?v) mod 10]"
    by (subst show_nat.simps) simp
  also from v have "(10 * ?m + ?v) div 10 = ?m" by simp
  also from v have "(10 * ?m + ?v) mod 10 = ?v" by simp
  finally show ?case by (simp add: eq ih digit_value(2) [OF d])
qed

lemma show_decimal: "numeric_id ascii_digit t \<Longrightarrow> show_nat (decimal t) = t"
proof (cases t)
  case Nil
  assume "numeric_id ascii_digit t"
  with Nil show ?thesis by simp
next
  case (Cons h ds)
  assume valid: "numeric_id ascii_digit t"
  show ?thesis
  proof (cases "h = ord (CHR ''0'')")
    case True
    with valid Cons have t: "t = [48]" by (simp add: ord_def)
    show ?thesis unfolding t by (simp add: decimal_def show_nat.simps [of 0])
  next
    case False
    with valid Cons show ?thesis by (simp add: show_leading ord_def)
  qed
qed

lemma decimal_show_nat: "decimal (show_nat n) = n"
proof (induction n rule: show_nat.induct)
  case (1 n)
  show ?case
  proof (cases "n < 10")
    case True
    then show ?thesis
      by (simp add: show_nat.simps [of n] decimal_def)
  next
    case False
    with 1 have "decimal (show_nat (n div 10)) = n div 10" by simp
    with False show ?thesis
      by (simp add: show_nat.simps [of n] decimal_snoc)
  qed
qed

lemma semver_tuple_shape:
  assumes "numeric_id (is_decimal wide) a" "numeric_id (is_decimal wide) b"
    "numeric_id (is_decimal wide) c" "e = [] \<or> e = [newline]"
    and "\<And>c v. wide c = Some v \<Longrightarrow> v < 10"
    and "\<And>c. py_space c \<Longrightarrow> wide c = None"
  shows "semver_tuple wide lim (a @ ord (CHR ''.'') # b @ ord (CHR ''.'') # c @ e) =
    (if over_limit lim (length a) \<or> over_limit lim (length b) \<or> over_limit lim (length c)
     then Inl ValueError
     else Inr (int (decimal (map (to_ascii wide) a)), int (decimal (map (to_ascii wide) b)),
               int (decimal (map (to_ascii wide) c))))"
proof -
  have "py_int wide lim a =
      (if over_limit lim (length a) then Inl ValueError
       else Inr (int (decimal (map (to_ascii wide) a))))"
    using py_int_component [OF assms(1) disjI1 [OF refl] assms(5,6), where lim = lim] by simp
  moreover
  have "py_int wide lim b =
      (if over_limit lim (length b) then Inl ValueError
       else Inr (int (decimal (map (to_ascii wide) b))))"
    using py_int_component [OF assms(2) disjI1 [OF refl] assms(5,6), where lim = lim] by simp
  moreover
  have "py_int wide lim (c @ e) =
      (if over_limit lim (length c) then Inl ValueError
       else Inr (int (decimal (map (to_ascii wide) c))))"
    by (rule py_int_component [OF assms(3,4,5,6)])
  ultimately show ?thesis
    by (simp add: semver_tuple_def split_accepted [OF assms(1-4)])
qed

lemma convertible_parts:
  assumes "numeric_id (is_decimal wide) a" "numeric_id (is_decimal wide) b"
    "numeric_id (is_decimal wide) c" "e = [] \<or> e = [newline]"
  shows "list_all (convertible wide lim) [a, b, c @ e] \<longleftrightarrow>
    \<not> (over_limit lim (length a) \<or> over_limit lim (length b) \<or> over_limit lim (length c))"
  using digits_of_component [of wide a "[]"] digits_of_component [of wide b "[]"]
    digits_of_component [of wide c e] assms numeric_id_decimal [of wide]
  by (simp add: convertible_def)

lemma numeric_id_ones: "0 < k \<Longrightarrow> numeric_id (is_decimal wide) (replicate k (ord (CHR ''1'')))"
  by (cases k) (auto simp: list_all_iff is_decimal_def todecimal_def ord_def)

lemma arabic_indic_values: "arabic_indic c = Some v \<Longrightarrow> v < 10"
  by (auto simp: arabic_indic_def split: if_splits)

lemma arabic_indic_no_space: "py_space c \<Longrightarrow> arabic_indic c = None"
  by (auto simp: arabic_indic_def py_space_def)

text \<open>
  C10, as stated: for every string the pattern accepts, each integer conversion in
  \<open>semver_tuple\<close> succeeds. Under the interpreter's default limit of 4300 digits the
  accepted string of 4301 ones followed by \<open>.0.0\<close> refutes it: \<open>int\<close> raises
  \<open>ValueError\<close> on its first part.
\<close>

theorem digit_limit_raises:
  "re_match arabic_indic SEMVER_RE (replicate 4301 (ord (CHR ''1'')) @ str ''.0.0'')
   \<and> semver_tuple arabic_indic 4300 (replicate 4301 (ord (CHR ''1'')) @ str ''.0.0'')
       = Inl ValueError"
proof -
  let ?a = "replicate 4301 (ord (CHR ''1''))"
  have a: "numeric_id (is_decimal arabic_indic) ?a" by (rule numeric_id_ones) simp
  have z: "numeric_id (is_decimal arabic_indic) (str ''0'')" by (simp add: text_defs)
  have s: "?a @ str ''.0.0'' = ?a @ ord (CHR ''.'') # str ''0'' @ ord (CHR ''.'') # str ''0'' @ []"
    by (simp add: str_def)
  have "re_match arabic_indic SEMVER_RE (?a @ str ''.0.0'')"
    unfolding accepted_shape using a z s by blast
  moreover
  have "semver_tuple arabic_indic 4300
      (?a @ ord (CHR ''.'') # str ''0'' @ ord (CHR ''.'') # str ''0'' @ []) =
    (if over_limit 4300 (length ?a) \<or> over_limit 4300 (length (str ''0''))
        \<or> over_limit 4300 (length (str ''0''))
     then Inl ValueError
     else Inr (int (decimal (map (to_ascii arabic_indic) ?a)),
               int (decimal (map (to_ascii arabic_indic) (str ''0''))),
               int (decimal (map (to_ascii arabic_indic) (str ''0'')))))"
    by (rule semver_tuple_shape
        [OF a z z disjI1 [OF refl] arabic_indic_values arabic_indic_no_space])
  then have "semver_tuple arabic_indic 4300 (?a @ str ''.0.0'') = Inl ValueError"
    unfolding s by (simp add: over_limit_def)
  ultimately show ?thesis by blast
qed

text \<open>
  C10, amended: for every string the pattern accepts, under every Unicode database,
  splitting on the dot gives exactly three parts; read as \<open>int\<close> reads them (each decimal
  digit as the ASCII digit of its value) they are the decimal notations of three natural
  numbers, the last part possibly followed by the newline that \<open>$\<close> lets through. As long
  as no part has more digits than the interpreter's limit allows, every conversion
  succeeds and \<open>semver_tuple\<close> returns exactly these three numbers; otherwise it raises
  \<open>ValueError\<close>. (The notation determines the number: \<open>decimal_show_nat\<close>.)
\<close>

theorem accepted_version_converts:
  assumes "re_match wide SEMVER_RE s"
    and "\<And>c v. wide c = Some v \<Longrightarrow> v < 10"
    and "\<And>c. py_space c \<Longrightarrow> wide c = None"
  shows "\<exists>a b c e x y z. (e = [] \<or> e = [newline])
      \<and> s = a @ str ''.'' @ b @ str ''.'' @ c @ e
      \<and> split_on (ord (CHR ''.'')) s = [a, b, c @ e]
      \<and> map (to_ascii wide) a = show_nat x
      \<and> map (to_ascii wide) b = show_nat y
      \<and> map (to_ascii wide) c = show_nat z
      \<and> semver_tuple wide lim s =
          (if list_all (convertible wide lim) (split_on (ord (CHR ''.'')) s)
           then Inr (int x, int y, int z) else Inl ValueError)"
proof -
  from assms(1) obtain a b c e where parts: "numeric_id (is_decimal wide) a"
    "numeric_id (is_decimal wide) b" "numeric_id (is_decimal wide) c"
    "e = [] \<or> e = [newline]" and s: "s = a @ ord (CHR ''.'') # b @ ord (CHR ''.'') # c @ e"
    unfolding accepted_shape by blast
  let ?x = "decimal (map (to_ascii wide) a)"
  let ?y = "decimal (map (to_ascii wide) b)"
  let ?z = "decimal (map (to_ascii wide) c)"
  have shown: "map (to_ascii wide) a = show_nat ?x" "map (to_ascii wide) b = show_nat ?y"
    "map (to_ascii wide) c = show_nat ?z"
    using parts(1-3) [THEN component_ascii, OF assms(2,3), THEN show_decimal] by simp_all
  have split: "split_on (ord (CHR ''.'')) s = [a, b, c @ e]"
    unfolding s by (rule split_accepted [OF parts])
  have tuple: "semver_tuple wide lim s =
      (if over_limit lim (length a) \<or> over_limit lim (length b) \<or> over_limit lim (length c)
       then Inl ValueError else Inr (int ?x, int ?y, int ?z))"
    unfolding s by (rule semver_tuple_shape [OF parts assms(2,3)])
  have within: "list_all (convertible wide lim) (split_on (ord (CHR ''.'')) s) \<longleftrightarrow>
      \<not> (over_limit lim (length a) \<or> over_limit lim (length b) \<or> over_limit lim (length c))"
    unfolding split by (rule convertible_parts [OF parts])
  have result: "semver_tuple wide lim s =
      (if list_all (convertible wide lim) (split_on (ord (CHR ''.'')) s)
       then Inr (int ?x, int ?y, int ?z) else Inl ValueError)"
    unfolding tuple within by simp
  from s have s': "s = a @ str ''.'' @ b @ str ''.'' @ c @ e" by (simp add: str_def)
  from parts(4) s' split shown result show ?thesis by blast
qed

theorem accepted_version_converts_witness:
  "re_match arabic_indic SEMVER_RE (str ''1'' @ [1635] @ str ''.0.0'' @ [newline])
   \<and> semver_tuple arabic_indic 4300 (str ''1'' @ [1635] @ str ''.0.0'' @ [newline]) = Inr (13, 0, 0)
   \<and> (\<exists>a b c e x y z. (e = [] \<or> e = [newline])
      \<and> str ''1'' @ [1635] @ str ''.0.0'' @ [newline] = a @ str ''.'' @ b @ str ''.'' @ c @ e
      \<and> split_on (ord (CHR ''.'')) (str ''1'' @ [1635] @ str ''.0.0'' @ [newline]) = [a, b, c @ e]
      \<and> map (to_ascii arabic_indic) a = show_nat x
      \<and> map (to_ascii arabic_indic) b = show_nat y
      \<and> map (to_ascii arabic_indic) c = show_nat z
      \<and> semver_tuple arabic_indic 4300 (str ''1'' @ [1635] @ str ''.0.0'' @ [newline]) =
          (if list_all (convertible arabic_indic 4300)
                (split_on (ord (CHR ''.'')) (str ''1'' @ [1635] @ str ''.0.0'' @ [newline]))
           then Inr (int x, int y, int z) else Inl ValueError))"
proof -
  have accepted: "re_match arabic_indic SEMVER_RE (str ''1'' @ [1635] @ str ''.0.0'' @ [newline])"
    by (simp add: validator_defs arabic_indic_def)
  have "semver_tuple arabic_indic 4300 (str ''1'' @ [1635] @ str ''.0.0'' @ [newline])
      = Inr (13, 0, 0)"
    by (simp add: run_defs)
  with accepted
    accepted_version_converts [OF accepted arabic_indic_values arabic_indic_no_space, where lim = 4300]
  show ?thesis
    by (intro conjI)
qed

subsection \<open>The change detector\<close>

lemma strip_with_empty: "strip_with p s = [] \<longleftrightarrow> list_all p s"
proof -
  let ?t = "dropWhile p s"
  have a: "strip_with p s = [] \<longleftrightarrow> list_all p ?t"
    by (simp add: strip_with_def dropWhile_eq_Nil_conv list_all_iff)
  have b: "list_all p ?t \<longleftrightarrow> ?t = []"
  proof
    assume all: "list_all p ?t"
    show "?t = []"
    proof (rule ccontr)
      assume ne: "?t \<noteq> []"
      then have "\<not> p (hd ?t)" by (rule hd_dropWhile)
      moreover from ne have "hd ?t \<in> set ?t" by simp
      ultimately show False using all by (auto simp: list_all_iff)
    qed
  next
    assume e: "?t = []"
    show "list_all p ?t" unfolding e by simp
  qed
  show ?thesis using a b by (simp add: dropWhile_eq_Nil_conv list_all_iff)
qed

lemma strip_nonempty: "strip s \<noteq> [] \<longleftrightarrow> list_ex (\<lambda>c. \<not> py_space c) s"
  by (simp add: strip_def strip_with_empty list_all_iff list_ex_iff)

text \<open>
  C8, as stated: \<open>file_changed\<close> never propagates an error of the diff query and returns
  \<open>False\<close> whenever the query fails. The run \<open>no_git\<close> refutes it: git cannot be started,
  \<open>subprocess.check_output\<close> raises \<open>FileNotFoundError\<close>, which is not a
  \<open>CalledProcessError\<close>, and the exception leaves \<open>file_changed\<close> and ends \<open>main\<close>.
\<close>

theorem diff_error_propagates:
  "git_diff_output no_git (str ''origin/main'' @ str ''...HEAD'') VERSION_PATH = Uncaught OSError
   \<and> file_changed no_git (str ''origin/main'') VERSION_PATH = Inl OSError
   \<and> main no_git = Inl (Raise OSError)"
  by (simp add: no_git_def run_defs)

text \<open>
  C8, amended: \<open>file_changed\<close> returns \<open>False\<close> whenever the diff command exits with a
  non-zero status, and \<open>True\<close> exactly when the command succeeds and its output has a
  character that is not whitespace; an exception of any other class (git cannot be
  started) is not caught and leaves the function.
\<close>

theorem file_changed_outcomes:
  "(git_diff_output w (base_ref @ str ''...HEAD'') path = CalledProcessError \<longrightarrow>
      file_changed w base_ref path = Inr False)
   \<and> (file_changed w base_ref path = Inr True \<longleftrightarrow>
        (\<exists>output. git_diff_output w (base_ref @ str ''...HEAD'') path = Stdout output
                  \<and> list_ex (\<lambda>c. \<not> py_space c) output))
   \<and> (file_changed w base_ref path = Inl e \<longleftrightarrow>
        git_diff_output w (base_ref @ str ''...HEAD'') path = Uncaught e)"
  by (cases "git_diff_output w (base_ref @ str ''...HEAD'') path")
     (simp_all add: file_changed_def strip_nonempty)

theorem file_changed_outcomes_witness:
  "git_diff_output (pull_request JNull JNull True False) (str ''gone'' @ str ''...HEAD'') VERSION_PATH
     = CalledProcessError
   \<and> file_changed (pull_request JNull JNull True False) (str ''gone'') VERSION_PATH = Inr False
   \<and> file_changed (pull_request JNull JNull True False) (str ''origin/main'') VERSION_PATH = Inr True
   \<and> file_changed (pull_request JNull JNull False False) (str ''origin/main'') VERSION_PATH = Inr False
   \<and> file_changed no_git (str ''origin/main'') VERSION_PATH = Inl OSError"
  using file_changed_outcomes [of "pull_request JNull JNull True False" "str ''gone''" VERSION_PATH]
    file_changed_outcomes [of "pull_request JNull JNull True False" "str ''origin/main''" VERSION_PATH]
    file_changed_outcomes [of "pull_request JNull JNull False False" "str ''origin/main''" VERSION_PATH]
    file_changed_outcomes [of no_git "str ''origin/main''" VERSION_PATH OSError]
  by (simp add: no_git_def pull_request_def file_changed_def strip_def strip_with_def
      VERSION_PATH_def text_defs py_space_def)

subsection \<open>The baseline resolver\<close>

lemma first_verified_member: "first_verified w cs = Inr (Some r) \<Longrightarrow> r \<in> set cs"
  by (induction cs) (auto split: completed.splits)

lemma first_verified_same:
  "git_rev_parse w' = git_rev_parse w \<Longrightarrow> first_verified w' cs = first_verified w cs"
  by (induction cs) (auto split: completed.splits)

lemma resolve_base_ref_nonempty:
  assumes "resolve_base_ref w = Inr (Some r)"
  shows "r \<noteq> []"
proof -
  from assms consider (hint) base_ref where "r = str ''origin/'' @ base_ref"
    | (found) "first_verified w candidates = Inr (Some r)"
    by (auto simp: resolve_base_ref_def split: option.splits if_splits)
  then show ?thesis
  proof cases
    case hint
    then show ?thesis by (simp add: str_def)
  next
    case found
    then have "r \<in> set candidates" by (rule first_verified_member)
    then show ?thesis by (auto simp: candidates_def str_def)
  qed
qed

text \<open>
  C9. A hint \<open>GITHUB_BASE_REF\<close> that is set (present and not empty, the test \<open>if base_ref\<close>)
  is returned with the prefix \<open>origin/\<close> however \<open>git rev-parse --verify\<close> would end;
  only without a hint are the four fallback names verified, in their order. So a hint
  that does not resolve still gives a baseline.
\<close>

theorem hint_is_not_verified:
  "(environ w (str ''GITHUB_BASE_REF'') = Some hint \<and> hint \<noteq> [] \<longrightarrow>
      resolve_base_ref (w\<lparr>git_rev_parse := verify\<rparr>) = Inr (Some (str ''origin/'' @ hint)))
   \<and> (environ w (str ''GITHUB_BASE_REF'') = None \<or> environ w (str ''GITHUB_BASE_REF'') = Some [] \<longrightarrow>
      resolve_base_ref w =
        (case git_rev_parse w (str ''origin/main'') of
           Stdout output \<Rightarrow> Inr (Some (str ''origin/main''))
         | Uncaught e \<Rightarrow> Inl e
         | CalledProcessError \<Rightarrow>
        (case git_rev_parse w (str ''origin/master'') of
           Stdout output \<Rightarrow> Inr (Some (str ''origin/master''))
         | Uncaught e \<Rightarrow> Inl e
         | CalledProcessError \<Rightarrow>
        (case git_rev_parse w (str ''main'') of
           Stdout output \<Rightarrow> Inr (Some (str ''main''))
         | Uncaught e \<Rightarrow> Inl e
         | CalledProcessError \<Rightarrow>
        (case git_rev_parse w (str ''master'') of
           Stdout output \<Rightarrow> Inr (Some (str ''master''))
         | Uncaught e \<Rightarrow> Inl e
         | CalledProcessError \<Rightarrow> Inr None)))))"
  by (auto simp: resolve_base_ref_def candidates_def split: completed.splits)

theorem hint_is_not_verified_witness:
  "environ no_git (str ''GITHUB_BASE_REF'') = Some (str ''main'') \<and> str ''main'' \<noteq> []
   \<and> git_rev_parse no_git (str ''origin/main'') = Uncaught OSError
   \<and> resolve_base_ref (no_git\<lparr>git_rev_parse := (\<lambda>name. CalledProcessError)\<rparr>)
       = Inr (Some (str ''origin/main''))
   \<and> environ (pull_request JNull JNull True False\<lparr>environ := Map.empty\<rparr>) (str ''GITHUB_BASE_REF'')
       = None
   \<and> resolve_base_ref (pull_request JNull JNull True False\<lparr>environ := Map.empty\<rparr>)
       = Inr (Some (str ''origin/main''))"
  using hint_is_not_verified [of no_git "str ''main''" "\<lambda>name. CalledProcessError"]
    hint_is_not_verified [of "pull_request JNull JNull True False\<lparr>environ := Map.empty\<rparr>"]
  by (simp add: no_git_def pull_request_def text_defs)

subsection \<open>The order of the checks in main\<close>

text \<open>
  C6. With a valid current record and a resolved baseline ref, a requested release on an
  unchanged version file fails with the release-without-bump message however
  \<open>git show\<close> would end for the baseline: the baseline record is not read before.
\<close>

theorem release_without_bump_first:
  assumes "read_json w VERSION_PATH = Inr current"
    and "validate_payload (unicode_decimal w) current VERSION_PATH = Inr ()"
    and "resolve_base_ref w = Inr (Some base_ref)"
    and "parse_labels_from_event w = Inr labels"
    and "release_requested labels"
    and "file_changed w base_ref VERSION_PATH = Inr False"
  shows "main (w\<lparr>git_show_output := shown\<rparr>) = Inl (Exit (ReleaseWithoutBump VERSION_PATH))"
proof -
  let ?w = "w\<lparr>git_show_output := shown\<rparr>"
  have same: "read_json ?w VERSION_PATH = read_json w VERSION_PATH"
    "resolve_base_ref ?w = resolve_base_ref w"
    "parse_labels_from_event ?w = parse_labels_from_event w"
    "file_changed ?w base_ref VERSION_PATH = file_changed w base_ref VERSION_PATH"
    by (simp_all add: read_json_def resolve_base_ref_def parse_labels_from_event_def
        file_changed_def first_verified_same [of ?w w] split: option.split)
  from assms(3) have "base_ref \<noteq> []" by (rule resolve_base_ref_nonempty)
  with assms same show ?thesis by (simp add: main_def)
qed

theorem release_without_bump_first_witness:
  "read_json (pull_request (version_record (str ''1.2.0'') (JInt 5)) JNull False True) VERSION_PATH
     = Inr (version_record (str ''1.2.0'') (JInt 5))
   \<and> resolve_base_ref (pull_request (version_record (str ''1.2.0'') (JInt 5)) JNull False True)
       = Inr (Some (str ''origin/main''))
   \<and> parse_labels_from_event (pull_request (version_record (str ''1.2.0'') (JInt 5)) JNull False True)
       = Inr [JStr (str ''release'')]
   \<and> release_requested [JStr (str ''release'')]
   \<and> file_changed (pull_request (version_record (str ''1.2.0'') (JInt 5)) JNull False True)
       (str ''origin/main'') VERSION_PATH = Inr False
   \<and> main (pull_request (version_record (str ''1.2.0'') (JInt 5)) JNull False True
       \<lparr>git_show_output := (\<lambda>spec. CalledProcessError)\<rparr>)
       = Inl (Exit (ReleaseWithoutBump VERSION_PATH))
   \<and> main (pull_request (version_record (str ''1.2.0'') (JInt 5)) JNull False True)
       = Inl (Exit (ReleaseWithoutBump VERSION_PATH))"
  using release_without_bump_first
      [of "pull_request (version_record (str ''1.2.0'') (JInt 5)) JNull False True"
      "version_record (str ''1.2.0'') (JInt 5)" "str ''origin/main''" "[JStr (str ''release'')]"
      "\<lambda>spec. CalledProcessError"]
   release_without_bump_first
      [of "pull_request (version_record (str ''1.2.0'') (JInt 5)) JNull False True"
      "version_record (str ''1.2.0'') (JInt 5)" "str ''origin/main''" "[JStr (str ''release'')]"
      "git_show_output (pull_request (version_record (str ''1.2.0'') (JInt 5)) JNull False True)"]
  by (simp add: run_defs)

text \<open>
  C7. With a valid current record: if no baseline ref resolves the run passes, reporting
  that only the current version was validated; if a baseline ref resolves, the
  release-without-bump rule is not violated (with \<open>changed\<close> and \<open>labels\<close> what the
  change detector and the label reader returned) and the version file does not exist at
  the baseline, the run passes, reporting the initial version.
\<close>

theorem soft_absences_pass:
  assumes "read_json w VERSION_PATH = Inr current"
    and "validate_payload (unicode_decimal w) current VERSION_PATH = Inr ()"
  shows "(resolve_base_ref w = Inr None \<longrightarrow> main w = Inr CurrentOnly)
    \<and> (resolve_base_ref w = Inr (Some base_ref)
        \<and> file_changed w base_ref VERSION_PATH = Inr changed
        \<and> parse_labels_from_event w = Inr labels
        \<and> \<not> (release_requested labels \<and> \<not> changed)
        \<and> git_show w base_ref VERSION_PATH = Inr None
       \<longrightarrow> main w = Inr (InitialVersion VERSION_PATH base_ref))"
proof -
  have "resolve_base_ref w = Inr None \<Longrightarrow> main w = Inr CurrentOnly"
    using assms by (simp add: main_def)
  moreover have "main w = Inr (InitialVersion VERSION_PATH base_ref)"
    if "resolve_base_ref w = Inr (Some base_ref)"
      "file_changed w base_ref VERSION_PATH = Inr changed"
      "parse_labels_from_event w = Inr labels"
      "\<not> (release_requested labels \<and> \<not> changed)"
      "git_show w base_ref VERSION_PATH = Inr None"
  proof -
    from that(1) have "base_ref \<noteq> []" by (rule resolve_base_ref_nonempty)
    with assms that show ?thesis by (simp add: main_def)
  qed
  ultimately show ?thesis by blast
qed

theorem soft_absences_pass_witness:
  "read_json (initial_pr\<lparr>environ := Map.empty, git_rev_parse := (\<lambda>name. CalledProcessError)\<rparr>)
     VERSION_PATH = Inr (version_record (str ''1.2.0'') (JInt 5))
   \<and> resolve_base_ref (initial_pr\<lparr>environ := Map.empty, git_rev_parse := (\<lambda>name. CalledProcessError)\<rparr>)
       = Inr None
   \<and> main (initial_pr\<lparr>environ := Map.empty, git_rev_parse := (\<lambda>name. CalledProcessError)\<rparr>)
       = Inr CurrentOnly
   \<and> resolve_base_ref initial_pr = Inr (Some (str ''origin/main''))
   \<and> parse_labels_from_event initial_pr = Inr [JStr (str ''release'')]
   \<and> file_changed initial_pr (str ''origin/main'') VERSION_PATH = Inr True
   \<and> git_show initial_pr (str ''origin/main'') VERSION_PATH = Inr None
   \<and> main initial_pr = Inr (InitialVersion VERSION_PATH (str ''origin/main''))"
  using soft_absences_pass
      [of "initial_pr\<lparr>environ := Map.empty, git_rev_parse := (\<lambda>name. CalledProcessError)\<rparr>"
      "version_record (str ''1.2.0'') (JInt 5)" "str ''origin/main''" True "[]"]
    soft_absences_pass [of initial_pr "version_record (str ''1.2.0'') (JInt 5)" "str ''origin/main''"
      True "[JStr (str ''release'')]"]
  by (simp add: initial_pr_def run_defs)

subsection \<open>The comparison rules\<close>

text \<open>
  In the three theorems below the run has a valid current record, a resolved baseline
  ref and a valid baseline record; \<open>current_build\<close>, \<open>base_build\<close>,
  \<open>current_marketing\<close> and \<open>base_marketing\<close> name the fields of the two records (they
  exist by \<open>valid_record_fields\<close>), \<open>x\<close> and \<open>y\<close> the integers the build numbers are,
  and \<open>current_version\<close> and \<open>base_version\<close> the tuples \<open>semver_tuple\<close> returns.
\<close>

text \<open>
  C1. When the version file changed: if the current build number is less than or equal
  to the baseline's, the run fails, and the message reports both build numbers (the one
  exception is a run that reading the labels of the event has already ended with an
  exception: it fails with that exception); if the current build number is greater, the
  run never fails with the build-number message.
\<close>

theorem build_monotonicity:
  assumes "read_json w VERSION_PATH = Inr current"
    and "validate_payload (unicode_decimal w) current VERSION_PATH = Inr ()"
    and "resolve_base_ref w = Inr (Some base_ref)"
    and "git_show w base_ref VERSION_PATH = Inr (Some contents)"
    and "json_loads w contents = Some base"
    and "validate_payload (unicode_decimal w) base (VERSION_PATH @ str '' at '' @ base_ref) = Inr ()"
    and "file_changed w base_ref VERSION_PATH = Inr True"
    and "getitem current (str ''build_number'') = Inr current_build"
    and "int_value current_build = Some x"
    and "getitem base (str ''build_number'') = Inr base_build"
    and "int_value base_build = Some y"
  shows "(x \<le> y \<longrightarrow>
            main w = Inl (Exit (BuildMustIncrease current_build base_build))
          \<or> (\<exists>e. parse_labels_from_event w = Inl e \<and> main w = Inl (Raise e)))
       \<and> (y < x \<longrightarrow> (\<forall>p q. main w \<noteq> Inl (Exit (BuildMustIncrease p q))))"
proof -
  from assms(3) have ne: "base_ref \<noteq> []" by (rule resolve_base_ref_nonempty)
  show ?thesis
  proof (cases "parse_labels_from_event w")
    case (Inl e)
    with assms ne show ?thesis by (simp add: main_def)
  next
    case (Inr labels)
    have m: "main w = changed_rules w (release_requested labels) current base"
      using assms ne Inr by (simp add: main_def)
    have le: "py_le current_build base_build = Inr (x \<le> y)"
      using assms by (simp add: py_le_def)
    have "x \<le> y \<Longrightarrow> main w = Inl (Exit (BuildMustIncrease current_build base_build))"
      using assms le by (simp add: m changed_rules_def)
    moreover have "y < x \<Longrightarrow> main w \<noteq> Inl (Exit (BuildMustIncrease p q))" for p q
      using assms le by (simp add: m changed_rules_def split: sum.split)
    ultimately show ?thesis by blast
  qed
qed

theorem build_monotonicity_witness:
  "validate_payload arabic_indic (version_record (str ''1.2.0'') (JInt 5)) VERSION_PATH = Inr ()
   \<and> resolve_base_ref same_build = Inr (Some (str ''origin/main''))
   \<and> file_changed same_build (str ''origin/main'') VERSION_PATH = Inr True
   \<and> main same_build = Inl (Exit (BuildMustIncrease (JInt 5) (JInt 5)))
   \<and> file_changed (release_pr (str ''1.3.0'')) (str ''origin/main'') VERSION_PATH = Inr True
   \<and> main (release_pr (str ''1.3.0'')) \<noteq> Inl (Exit (BuildMustIncrease (JInt 6) (JInt 5)))"
  using build_monotonicity [of same_build "version_record (str ''1.2.0'') (JInt 5)"
      "str ''origin/main''" "str ''base''" "version_record (str ''1.2.0'') (JInt 5)"
      "JInt 5" 5 "JInt 5" 5]
    build_monotonicity [of "release_pr (str ''1.3.0'')" "version_record (str ''1.3.0'') (JInt 6)"
      "str ''origin/main''" "str ''base''" "version_record (str ''1.2.0'') (JInt 5)"
      "JInt 6" 6 "JInt 5" 5]
  by (simp add: same_build_def release_pr_def run_defs)

text \<open>
  C2. When the version file changed and a release is requested: if the two version tuples
  are equal the run fails (with the release message once the build number has increased,
  with the build-number message otherwise); if the current tuple is greater than the
  baseline's, the release rule passes, and the run passes once the build number has
  increased.
\<close>

theorem release_requires_bump:
  assumes "read_json w VERSION_PATH = Inr current"
    and "validate_payload (unicode_decimal w) current VERSION_PATH = Inr ()"
    and "resolve_base_ref w = Inr (Some base_ref)"
    and "git_show w base_ref VERSION_PATH = Inr (Some contents)"
    and "json_loads w contents = Some base"
    and "validate_payload (unicode_decimal w) base (VERSION_PATH @ str '' at '' @ base_ref) = Inr ()"
    and "file_changed w base_ref VERSION_PATH = Inr True"
    and "parse_labels_from_event w = Inr labels"
    and "release_requested labels"
    and "getitem current (str ''build_number'') = Inr current_build"
    and "int_value current_build = Some x"
    and "getitem base (str ''build_number'') = Inr base_build"
    and "int_value base_build = Some y"
    and "getitem current (str ''marketing_version'') = Inr current_marketing"
    and "version_of w current_marketing = Inr current_version"
    and "getitem base (str ''marketing_version'') = Inr base_marketing"
    and "version_of w base_marketing = Inr base_version"
  shows "(current_version = base_version \<longrightarrow>
            main w = Inl (Exit (if x \<le> y then BuildMustIncrease current_build base_build
                                else VersionMustIncrease current_marketing base_marketing)))
       \<and> (tuple_less base_version current_version \<longrightarrow>
            main w = (if x \<le> y then Inl (Exit (BuildMustIncrease current_build base_build))
                      else Inr Passed))"
proof -
  from assms(3) have ne: "base_ref \<noteq> []" by (rule resolve_base_ref_nonempty)
  have m: "main w = changed_rules w True current base"
    using assms ne by (simp add: main_def)
  have le: "py_le current_build base_build = Inr (x \<le> y)"
    using assms by (simp add: py_le_def)
  have irrefl: "\<not> tuple_less t t" for t by (cases t) simp
  have asym: "tuple_less t u \<Longrightarrow> \<not> tuple_less u t \<and> t \<noteq> u" for t u
    by (cases t; cases u) auto
  have "current_version = base_version \<Longrightarrow> ?thesis"
    using assms le irrefl by (simp add: m changed_rules_def tuple_le_def)
  moreover have "tuple_less base_version current_version \<Longrightarrow> ?thesis"
    using assms le asym [of base_version current_version] irrefl
    by (auto simp add: m changed_rules_def tuple_le_def)
  moreover have "current_version \<noteq> base_version \<Longrightarrow> \<not> tuple_less base_version current_version \<Longrightarrow> ?thesis"
    by simp
  ultimately show ?thesis by blast
qed

theorem release_requires_bump_witness:
  "parse_labels_from_event (release_pr (str ''1.2.0'')) = Inr [JStr (str ''release'')]
   \<and> release_requested [JStr (str ''release'')]
   \<and> file_changed (release_pr (str ''1.2.0'')) (str ''origin/main'') VERSION_PATH = Inr True
   \<and> version_of (release_pr (str ''1.2.0'')) (JStr (str ''1.2.0'')) = Inr (1, 2, 0)
   \<and> main (release_pr (str ''1.2.0''))
       = Inl (Exit (VersionMustIncrease (JStr (str ''1.2.0'')) (JStr (str ''1.2.0''))))
   \<and> version_of (release_pr (str ''1.10.0'')) (JStr (str ''1.10.0'')) = Inr (1, 10, 0)
   \<and> tuple_less (1, 2, 0) (1, 10, 0)
   \<and> main (release_pr (str ''1.10.0'')) = Inr Passed"
  using release_requires_bump [of "release_pr (str ''1.2.0'')" "version_record (str ''1.2.0'') (JInt 6)"
      "str ''origin/main''" "str ''base''" "version_record (str ''1.2.0'') (JInt 5)"
      "[JStr (str ''release'')]"
      "JInt 6" 6 "JInt 5" 5 "JStr (str ''1.2.0'')" "(1, 2, 0)" "JStr (str ''1.2.0'')" "(1, 2, 0)"]
    release_requires_bump [of "release_pr (str ''1.10.0'')" "version_record (str ''1.10.0'') (JInt 6)"
      "str ''origin/main''" "str ''base''" "version_record (str ''1.2.0'') (JInt 5)"
      "[JStr (str ''release'')]"
      "JInt 6" 6 "JInt 5" 5 "JStr (str ''1.10.0'')" "(1, 10, 0)" "JStr (str ''1.2.0'')" "(1, 2, 0)"]
  by (simp add: release_pr_def run_defs)

text \<open>
  C3, as stated: a current version tuple less than the baseline's fails the run, with no
  condition on \<open>fileChanged\<close>. The run \<open>stale_branch\<close> refutes it: the file is unchanged
  against the merge base, no release is requested, the current version 1.0.0 is below the
  baseline's 2.0.0, and the run passes.
\<close>

theorem regression_passes_when_untouched:
  "read_json stale_branch VERSION_PATH = Inr (version_record (str ''1.0.0'') (JInt 6))
   \<and> validate_payload (unicode_decimal stale_branch) (version_record (str ''1.0.0'') (JInt 6))
       VERSION_PATH = Inr ()
   \<and> resolve_base_ref stale_branch = Inr (Some (str ''origin/main''))
   \<and> git_show stale_branch (str ''origin/main'') VERSION_PATH = Inr (Some (str ''base''))
   \<and> json_loads stale_branch (str ''base'') = Some (version_record (str ''2.0.0'') (JInt 5))
   \<and> validate_payload (unicode_decimal stale_branch) (version_record (str ''2.0.0'') (JInt 5))
       (VERSION_PATH @ str '' at '' @ str ''origin/main'') = Inr ()
   \<and> version_of stale_branch (JStr (str ''1.0.0'')) = Inr (1, 0, 0)
   \<and> version_of stale_branch (JStr (str ''2.0.0'')) = Inr (2, 0, 0)
   \<and> tuple_less (1, 0, 0) (2, 0, 0)
   \<and> main stale_branch = Inr Passed"
  by (simp add: stale_branch_def run_defs)

text \<open>
  C3, amended: a current version tuple less than the baseline's fails the run whenever
  the version file changed or a release is requested; when the file is unchanged and no
  release is requested the comparison is skipped and the run passes.
\<close>

theorem no_regression_when_touched:
  assumes "read_json w VERSION_PATH = Inr current"
    and "validate_payload (unicode_decimal w) current VERSION_PATH = Inr ()"
    and "resolve_base_ref w = Inr (Some base_ref)"
    and "git_show w base_ref VERSION_PATH = Inr (Some contents)"
    and "json_loads w contents = Some base"
    and "validate_payload (unicode_decimal w) base (VERSION_PATH @ str '' at '' @ base_ref) = Inr ()"
    and "getitem current (str ''marketing_version'') = Inr current_marketing"
    and "version_of w current_marketing = Inr current_version"
    and "getitem base (str ''marketing_version'') = Inr base_marketing"
    and "version_of w base_marketing = Inr base_version"
    and "tuple_less current_version base_version"
  shows "(file_changed w base_ref VERSION_PATH = Inr True \<longrightarrow> isl (main w))
       \<and> (parse_labels_from_event w = Inr labels \<and> release_requested labels \<longrightarrow> isl (main w))
       \<and> (parse_labels_from_event w = Inr labels \<and> \<not> release_requested labels
            \<and> file_changed w base_ref VERSION_PATH = Inr False \<longrightarrow> main w = Inr Passed)"
proof -
  from assms(3) have ne: "base_ref \<noteq> []" by (rule resolve_base_ref_nonempty)
  have rules: "isl (changed_rules w r current base)" for r
    using assms by (simp add: changed_rules_def split: sum.split)
  have a: "isl (main w)" if "file_changed w base_ref VERSION_PATH = Inr True"
    using assms ne that rules by (simp add: main_def split: sum.split)
  have b: "isl (main w)" if "parse_labels_from_event w = Inr labels" "release_requested labels"
    using assms ne that rules by (simp add: main_def split: sum.split)
  have c: "main w = Inr Passed" if "parse_labels_from_event w = Inr labels"
    "\<not> release_requested labels" "file_changed w base_ref VERSION_PATH = Inr False"
    using assms ne that by (simp add: main_def)
  from a b c show ?thesis by blast
qed

theorem no_regression_when_touched_witness:
  "tuple_less (1, 0, 0) (1, 2, 0)
   \<and> file_changed (release_pr (str ''1.0.0'')) (str ''origin/main'') VERSION_PATH = Inr True
   \<and> main (release_pr (str ''1.0.0''))
       = Inl (Exit (VersionMustNotDecrease (JStr (str ''1.0.0'')) (JStr (str ''1.2.0''))))
   \<and> parse_labels_from_event stale_branch = Inr []
   \<and> \<not> release_requested []
   \<and> file_changed stale_branch (str ''origin/main'') VERSION_PATH = Inr False
   \<and> main stale_branch = Inr Passed"
  using no_regression_when_touched [of "release_pr (str ''1.0.0'')"
      "version_record (str ''1.0.0'') (JInt 6)"
      "str ''origin/main''" "str ''base''" "version_record (str ''1.2.0'') (JInt 5)"
      "JStr (str ''1.0.0'')" "(1, 0, 0)"
      "JStr (str ''1.2.0'')" "(1, 2, 0)" "[JStr (str ''release'')]"]
    no_regression_when_touched [of stale_branch "version_record (str ''1.0.0'') (JInt 6)"
      "str ''origin/main''" "str ''base''" "version_record (str ''2.0.0'') (JInt 5)"
      "JStr (str ''1.0.0'')" "(1, 0, 0)"
      "JStr (str ''2.0.0'')" "(2, 0, 0)" "[]"]
  by (simp add: stale_branch_def release_pr_def run_defs)

end
